theory Spec2Isabelle
  imports Main
begin

section \<open>Exceptions and effectful results\<close>

text \<open>
  The Python services signal failure by raising. The classes below are the subclasses of
  \<^verbatim>\<open>Exception\<close> that the two ingestors name or can receive from their collaborators
  (the market-data client, the chat client and the two stores). Interpreter signals that
  derive from \<^verbatim>\<open>BaseException\<close> only (keyboard interrupt, task cancellation) are not
  failures of a collaborator and are not part of the model.

  A call that can raise and that mutates an object returns a pair: the outcome
  (\<open>Inl\<close> the exception, \<open>Inr\<close> the value) and the state as the call left it, since a
  mutation made before a raise stays made.
\<close>

datatype exn =
    ValueError
  | AttributeError
  | TypeError
  | RuntimeError
  | ConnectionError
  | TimeoutError
  | ISSMoexError
  | ChannelPrivateError
  | FloodWaitError nat
  | IntegrityError
  | OperationalError

text \<open>
  \<^verbatim>\<open>try: body  except ...: handler\<close>. The handler table returns \<open>None\<close> for an exception
  that no \<^verbatim>\<open>except\<close> clause matches, which then propagates; a handler runs on the state
  the body left.
\<close>

definition try_except ::
  "(exn + 'a) \<times> 's \<Rightarrow> (exn \<Rightarrow> 's \<Rightarrow> ((exn + 'a) \<times> 's) option) \<Rightarrow> (exn + 'a) \<times> 's" where
  "try_except body handlers =
     (case body of
        (Inr v, s) \<Rightarrow> (Inr v, s)
      | (Inl e, s) \<Rightarrow> (case handlers e s of Some r \<Rightarrow> r | None \<Rightarrow> (Inl e, s)))"

text \<open>\<^verbatim>\<open>except Exception\<close> matches every class of \<open>exn\<close>.\<close>

definition except_Exception ::
  "(exn \<Rightarrow> 's \<Rightarrow> (exn + 'a) \<times> 's) \<Rightarrow> exn \<Rightarrow> 's \<Rightarrow> ((exn + 'a) \<times> 's) option" where
  "except_Exception h e s = Some (h e s)"

section \<open>Time\<close>

text \<open>
  A naive \<^verbatim>\<open>datetime\<close> is the number of microseconds since 0001-01-01T00:00:00, so that
  \<open>\<le>\<close> on integers is the library's comparison and \<^verbatim>\<open>timedelta(hours=h)\<close> is a number of
  microseconds. The exchange sends candle times as naive local timestamps
  (\<^verbatim>\<open>YYYY-MM-DD HH:MM:SS\<close>); \<^verbatim>\<open>datetime.fromisoformat\<close> is a library function and is a
  parameter of every function that calls it: \<open>None\<close> stands for its \<^verbatim>\<open>ValueError\<close>.
\<close>

type_synonym datetime = int

type_synonym iso_parser = "string \<Rightarrow> datetime option"

definition timedelta_hours :: "int \<Rightarrow> int" where
  "timedelta_hours h = h * 3600000000"

text \<open>\<^verbatim>\<open>s.replace(" ", "T")\<close>\<close>

definition replace_space_T :: "string \<Rightarrow> string" where
  "replace_space_T s = map (\<lambda>c. if c = CHR '' '' then CHR ''T'' else c) s"

text \<open>\<^verbatim>\<open>dt.date()\<close>, as the day number.\<close>

definition date_of :: "datetime \<Rightarrow> int" where
  "date_of dt = dt div 86400000000"

section \<open>Market candle ingestor (app/moex\_market)\<close>

subsection \<open>Data\<close>

text \<open>
  A candle is the \<^verbatim>\<open>dict\<close> the client returns. The code reads the keys \<^verbatim>\<open>begin\<close> and
  \<^verbatim>\<open>end\<close>; a missing key (or a null value) is \<open>None\<close>. The remaining keys (open, close,
  high, low, value, volume) are passed to the store unread.
\<close>

record candle =
  c_begin :: "string option"
  c_end :: "string option"
  c_fields :: "(string \<times> string) list"

text \<open>\<^verbatim>\<open>candle.get("begin", "")\<close>\<close>

definition get_begin :: "candle \<Rightarrow> string" where
  "get_begin c = (case c_begin c of None \<Rightarrow> [] | Some s \<Rightarrow> s)"

text \<open>A row of the table \<^verbatim>\<open>ticker_candles\<close>.\<close>

record candle_row =
  r_ticker :: string
  r_begin :: datetime
  r_end :: "datetime option"
  r_fields :: "(string \<times> string) list"
  r_trade_date :: int

text \<open>
  The index snapshot \<^verbatim>\<open>dict\<close>: the code reads \<^verbatim>\<open>SYSTIME\<close> and \<^verbatim>\<open>SECID\<close>. A snapshot that
  is \<^verbatim>\<open>None\<close> or the empty \<^verbatim>\<open>dict\<close> (both falsy) is \<open>None\<close> of \<open>index_data option\<close>.
\<close>

record index_data =
  SYSTIME :: "string option"
  SECID :: "string option"
  i_fields :: "(string \<times> string) list"

text \<open>
  The calls that \<^verbatim>\<open>MarketMonitor\<close> makes to the store, each with the membership sets as
  they are when the call is made. The list of them is a trace kept beside the program
  state; the program never reads it.
\<close>

datatype db_call =
    InsertCandles string "candle list" "string \<rightharpoonup> string set"
  | InsertIndex index_data "string set"

text \<open>
  The state of one monitor process: \<^verbatim>\<open>MarketMonitor.cache\<close> (a dict from ticker to a set
  of begin strings), \<^verbatim>\<open>MarketMonitor.index_cache\<close>, and the \<^verbatim>\<open>ClickHouseDatabase\<close> it
  owns: whether \<^verbatim>\<open>client\<close> is set, and the two tables. The tables have no uniqueness
  constraint: an insert appends.
\<close>

record monitor =
  cache :: "string \<rightharpoonup> string set"
  index_cache :: "string set"
  db_connected :: bool
  ticker_candles :: "candle_row list"
  index_values :: "index_data list"
  db_calls :: "db_call list"

text \<open>\<^verbatim>\<open>self.cache.get(ticker, set())\<close>\<close>

definition seen :: "monitor \<Rightarrow> string \<Rightarrow> string set" where
  "seen m ticker = (case cache m ticker of None \<Rightarrow> {} | Some s \<Rightarrow> s)"

subsection \<open>fetch\_ticker\_data\<close>

text \<open>The loop of lines 45 to 56 over the client's candles.\<close>

fun window_filter :: "iso_parser \<Rightarrow> datetime \<Rightarrow> candle list \<Rightarrow> candle list" where
  "window_filter fromisoformat time_threshold [] = []"
| "window_filter fromisoformat time_threshold (c # data) =
     (let begin_str = get_begin c in
      if begin_str = [] then window_filter fromisoformat time_threshold data
      else (case fromisoformat (replace_space_T begin_str) of
              None \<Rightarrow> window_filter fromisoformat time_threshold data
            | Some begin_dt \<Rightarrow>
                if begin_dt \<ge> time_threshold
                then c # window_filter fromisoformat time_threshold data
                else window_filter fromisoformat time_threshold data))"

text \<open>
  \<open>resp\<close> is what \<^verbatim>\<open>moex_client.get_ticker_data\<close> does for this call: it raises or returns
  a list. \<open>now\<close> is the second reading of the clock (line 41).
\<close>

definition fetch_ticker_data ::
  "iso_parser \<Rightarrow> int \<Rightarrow> datetime \<Rightarrow> exn + candle list \<Rightarrow> monitor \<Rightarrow> (exn + candle list) \<times> monitor" where
  "fetch_ticker_data fromisoformat filter_hours now resp m =
     try_except
       (case resp of
          Inl e \<Rightarrow> (Inl e, m)
        | Inr data \<Rightarrow>
            if data = [] then (Inr [], m)
            else (let time_threshold = now - timedelta_hours filter_hours
                  in (Inr (window_filter fromisoformat time_threshold data), m)))
       (except_Exception (\<lambda>e s. (Inr [], s)))"

subsection \<open>filter\_new\_candles\<close>

text \<open>
  The loop of lines 68 to 75; it runs with the ticker's set already in the dict, so
  \<^verbatim>\<open>self.cache[ticker]\<close> is the set \<open>seen m ticker\<close>.
\<close>

fun new_candles_loop :: "string \<Rightarrow> candle list \<Rightarrow> monitor \<Rightarrow> candle list \<times> monitor" where
  "new_candles_loop ticker [] m = ([], m)"
| "new_candles_loop ticker (c # candles) m =
     (let begin_str = get_begin c in
      if begin_str = [] then new_candles_loop ticker candles m
      else if begin_str \<notin> seen m ticker
      then (case new_candles_loop ticker candles
                   (m\<lparr>cache := (cache m)(ticker \<mapsto> insert begin_str (seen m ticker))\<rparr>) of
              (new_candles, m') \<Rightarrow> (c # new_candles, m'))
      else new_candles_loop ticker candles m)"

text \<open>Lines 64 and 65: a ticker seen for the first time gets an empty set.\<close>

definition ensure_key :: "string \<Rightarrow> monitor \<Rightarrow> monitor" where
  "ensure_key ticker m =
     (if cache m ticker = None then m\<lparr>cache := (cache m)(ticker \<mapsto> {})\<rparr> else m)"

definition filter_new_candles :: "string \<Rightarrow> candle list \<Rightarrow> monitor \<Rightarrow> candle list \<times> monitor" where
  "filter_new_candles ticker candles m = new_candles_loop ticker candles (ensure_key ticker m)"

subsection \<open>The store: insert\_ticker\_candles\_batch, insert\_index\_value\<close>

text \<open>
  The loop of lines 125 to 151 of database.py. A candle without a begin, or with one that
  does not parse, is skipped; an \<^verbatim>\<open>end\<close> that does not parse raises out of the loop.
\<close>

fun build_values :: "iso_parser \<Rightarrow> string \<Rightarrow> candle list \<Rightarrow> exn + candle_row list" where
  "build_values fromisoformat ticker [] = Inr []"
| "build_values fromisoformat ticker (c # candles) =
     (case c_begin c of
        None \<Rightarrow> build_values fromisoformat ticker candles
      | Some begin_str \<Rightarrow>
          if begin_str = [] then build_values fromisoformat ticker candles
          else (case fromisoformat (replace_space_T begin_str) of
                  None \<Rightarrow> build_values fromisoformat ticker candles
                | Some begin_dt \<Rightarrow>
                    (case (case c_end c of
                             None \<Rightarrow> Inr None
                           | Some end_str \<Rightarrow>
                               if end_str = [] then Inr None
                               else (case fromisoformat (replace_space_T end_str) of
                                       None \<Rightarrow> Inl ValueError
                                     | Some end_dt \<Rightarrow> Inr (Some end_dt))) of
                       Inl e \<Rightarrow> Inl e
                     | Inr end_dt \<Rightarrow>
                         (case build_values fromisoformat ticker candles of
                            Inl e \<Rightarrow> Inl e
                          | Inr values_list \<Rightarrow>
                              Inr (\<lparr>r_ticker = ticker, r_begin = begin_dt, r_end = end_dt,
                                    r_fields = c_fields c, r_trade_date = date_of begin_dt\<rparr>
                                   # values_list)))))"

text \<open>
  \<open>execute\<close> is what the ClickHouse client does with the statement: \<open>Some e\<close> when it
  raises \<open>e\<close> (nothing is stored), \<open>None\<close> when it stores the rows.
\<close>

definition insert_ticker_candles_batch ::
  "iso_parser \<Rightarrow> exn option \<Rightarrow> string \<Rightarrow> candle list \<Rightarrow> monitor \<Rightarrow> (exn + unit) \<times> monitor" where
  "insert_ticker_candles_batch fromisoformat execute ticker candles m =
     (if \<not> db_connected m then (Inl RuntimeError, m)
      else if candles = [] then (Inr (), m)
      else (case build_values fromisoformat ticker candles of
              Inl e \<Rightarrow> (Inl e, m)
            | Inr values_list \<Rightarrow>
                if values_list = [] then (Inr (), m)
                else (case execute of
                        Some e \<Rightarrow> (Inl e, m)
                      | None \<Rightarrow>
                          (Inr (), m\<lparr>ticker_candles := ticker_candles m @ values_list\<rparr>))))"

definition insert_index_value ::
  "exn option \<Rightarrow> index_data \<Rightarrow> monitor \<Rightarrow> (exn + unit) \<times> monitor" where
  "insert_index_value execute idx m =
     (if \<not> db_connected m then (Inl RuntimeError, m)
      else (case execute of
              Some e \<Rightarrow> (Inl e, m)
            | None \<Rightarrow> (Inr (), m\<lparr>index_values := index_values m @ [idx]\<rparr>)))"

subsection \<open>save\_ticker\_data, save\_index\_data\<close>

text \<open>The loop of lines 104 to 107: the rollback of the seen-set.\<close>

fun discard_loop :: "string \<Rightarrow> candle list \<Rightarrow> monitor \<Rightarrow> monitor" where
  "discard_loop ticker [] m = m"
| "discard_loop ticker (c # new_data) m =
     (let begin_str = get_begin c in
      discard_loop ticker new_data
        (if begin_str \<in> seen m ticker
         then m\<lparr>cache := (cache m)(ticker \<mapsto> seen m ticker - {begin_str})\<rparr>
         else m))"

definition save_ticker_data ::
  "iso_parser \<Rightarrow> exn option \<Rightarrow> string \<Rightarrow> candle list \<Rightarrow> candle list option \<Rightarrow> monitor
     \<Rightarrow> (exn + unit) \<times> monitor" where
  "save_ticker_data fromisoformat execute ticker data new_data_arg m =
     (if data = [] then (Inr (), m)
      else (case (case new_data_arg of
                    None \<Rightarrow> filter_new_candles ticker data m
                  | Some nd \<Rightarrow> (nd, m)) of
              (new_data, m1) \<Rightarrow>
                if new_data = [] then (Inr (), m1)
                else try_except
                       (insert_ticker_candles_batch fromisoformat execute ticker new_data
                          (m1\<lparr>db_calls := db_calls m1 @ [InsertCandles ticker new_data (cache m1)]\<rparr>))
                       (except_Exception (\<lambda>e s. (Inr (), discard_loop ticker new_data s)))))"

text \<open>\<^verbatim>\<open>index_data.get("SYSTIME", "")\<close>\<close>

definition get_systime :: "index_data \<Rightarrow> string" where
  "get_systime idx = (case SYSTIME idx of None \<Rightarrow> [] | Some s \<Rightarrow> s)"

definition save_index_data ::
  "exn option \<Rightarrow> index_data option \<Rightarrow> monitor \<Rightarrow> (exn + unit) \<times> monitor" where
  "save_index_data execute index_arg m =
     (case index_arg of
        None \<Rightarrow> (Inr (), m)
      | Some idx \<Rightarrow>
          (let systime_str = get_systime idx in
           if systime_str = [] then (Inr (), m)
           else if systime_str \<in> index_cache m then (Inr (), m)
           else try_except
                  (case insert_index_value execute idx
                          (m\<lparr>db_calls := db_calls m @ [InsertIndex idx (index_cache m)]\<rparr>) of
                     (Inl e, m1) \<Rightarrow> (Inl e, m1)
                   | (Inr u, m1) \<Rightarrow>
                       (Inr (), m1\<lparr>index_cache := insert systime_str (index_cache m1)\<rparr>))
                  (except_Exception
                     (\<lambda>e s. (Inr (),
                        if systime_str \<in> index_cache s
                        then s\<lparr>index_cache := index_cache s - {systime_str}\<rparr> else s)))))"

subsection \<open>fetch\_index\_data, monitor\_cycle\<close>

definition fetch_index_data ::
  "exn + index_data option \<Rightarrow> monitor \<Rightarrow> (exn + index_data option) \<times> monitor" where
  "fetch_index_data resp m =
     try_except
       (case resp of Inl e \<Rightarrow> (Inl e, m) | Inr index_arg \<Rightarrow> (Inr index_arg, m))
       (except_Exception (\<lambda>e s. (Inr None, s)))"

definition get_tickers_list :: "string list" where
  "get_tickers_list = [''SBER'']"

text \<open>
  What the world outside the process does during one cycle: the clock, the answers of the
  market-data client, and whether each statement sent to the store is accepted.
\<close>

record cycle_env =
  now :: datetime
  ticker_resp :: "string \<Rightarrow> exn + candle list"
  candles_execute :: "string \<Rightarrow> exn option"
  index_resp :: "exn + index_data option"
  index_execute :: "exn option"

text \<open>The body of the loop over the tickers, lines 138 to 150, with its handler.\<close>

definition monitor_ticker ::
  "iso_parser \<Rightarrow> int \<Rightarrow> cycle_env \<Rightarrow> string \<Rightarrow> monitor \<Rightarrow> (exn + unit) \<times> monitor" where
  "monitor_ticker fromisoformat filter_hours env ticker m =
     try_except
       (case fetch_ticker_data fromisoformat filter_hours (now env) (ticker_resp env ticker) m of
          (Inl e, m1) \<Rightarrow> (Inl e, m1)
        | (Inr data, m1) \<Rightarrow>
            if data \<noteq> [] then
              (case filter_new_candles ticker data m1 of
                 (new_data, m2) \<Rightarrow>
                   save_ticker_data fromisoformat (candles_execute env ticker) ticker data
                     (Some new_data) m2)
            else (Inr (), m1))
       (except_Exception (\<lambda>e s. (Inr (), s)))"

fun monitor_tickers ::
  "iso_parser \<Rightarrow> int \<Rightarrow> cycle_env \<Rightarrow> string list \<Rightarrow> monitor \<Rightarrow> (exn + unit) \<times> monitor" where
  "monitor_tickers fromisoformat filter_hours env [] m = (Inr (), m)"
| "monitor_tickers fromisoformat filter_hours env (ticker # tickers) m =
     (case monitor_ticker fromisoformat filter_hours env ticker m of
        (Inl e, m1) \<Rightarrow> (Inl e, m1)
      | (Inr u, m1) \<Rightarrow> monitor_tickers fromisoformat filter_hours env tickers m1)"

definition monitor_index :: "cycle_env \<Rightarrow> monitor \<Rightarrow> (exn + unit) \<times> monitor" where
  "monitor_index env m =
     try_except
       (case fetch_index_data (index_resp env) m of
          (Inl e, m1) \<Rightarrow> (Inl e, m1)
        | (Inr index_arg, m1) \<Rightarrow> save_index_data (index_execute env) index_arg m1)
       (except_Exception (\<lambda>e s. (Inr (), s)))"

definition monitor_cycle ::
  "iso_parser \<Rightarrow> int \<Rightarrow> cycle_env \<Rightarrow> monitor \<Rightarrow> (exn + unit) \<times> monitor" where
  "monitor_cycle fromisoformat filter_hours env m =
     (case monitor_tickers fromisoformat filter_hours env get_tickers_list m of
        (Inl e, m1) \<Rightarrow> (Inl e, m1)
      | (Inr u, m1) \<Rightarrow> monitor_index env m1)"

section \<open>A parser for the exchange's timestamp format\<close>

text \<open>
  The general results below hold for every parser. Concrete runs need one: this is
  \<^verbatim>\<open>datetime.fromisoformat\<close> on the format the exchange sends, \<^verbatim>\<open>YYYY-MM-DDTHH:MM:SS\<close>
  (after the replacement of the space), with the library's range checks; every other string
  is a \<^verbatim>\<open>ValueError\<close>.
\<close>

definition digit_val :: "char \<Rightarrow> nat option" where
  "digit_val c =
     (let n = (of_char c :: nat) in if 48 \<le> n \<and> n \<le> 57 then Some (n - 48) else None)"

fun digits_val :: "nat \<Rightarrow> string \<Rightarrow> nat option" where
  "digits_val acc [] = Some acc"
| "digits_val acc (c # cs) =
     (case digit_val c of None \<Rightarrow> None | Some d \<Rightarrow> digits_val (10 * acc + d) cs)"

definition is_leap :: "nat \<Rightarrow> bool" where
  "is_leap y = (y mod 4 = 0 \<and> (y mod 100 \<noteq> 0 \<or> y mod 400 = 0))"

definition days_in_month :: "nat \<Rightarrow> nat \<Rightarrow> nat" where
  "days_in_month y mo =
     (if mo = 2 then (if is_leap y then 29 else 28)
      else if mo = 4 \<or> mo = 6 \<or> mo = 9 \<or> mo = 11 then 30 else 31)"

definition days_before_month :: "nat \<Rightarrow> nat \<Rightarrow> nat" where
  "days_before_month y mo = sum_list (map (days_in_month y) [1..<mo])"

definition days_before_year :: "nat \<Rightarrow> nat" where
  "days_before_year y = (y - 1) * 365 + (y - 1) div 4 - (y - 1) div 100 + (y - 1) div 400"

definition fromisoformat_seconds :: iso_parser where
  "fromisoformat_seconds s =
     (if length s = 19 \<and> s ! 4 = CHR ''-'' \<and> s ! 7 = CHR ''-'' \<and> s ! 10 = CHR ''T''
         \<and> s ! 13 = CHR '':'' \<and> s ! 16 = CHR '':''
      then (case (digits_val 0 (take 4 s), digits_val 0 (take 2 (drop 5 s)),
                  digits_val 0 (take 2 (drop 8 s)), digits_val 0 (take 2 (drop 11 s)),
                  digits_val 0 (take 2 (drop 14 s)), digits_val 0 (take 2 (drop 17 s))) of
              (Some y, Some mo, Some d, Some h, Some mi, Some sec) \<Rightarrow>
                if 1 \<le> y \<and> 1 \<le> mo \<and> mo \<le> 12 \<and> 1 \<le> d \<and> d \<le> days_in_month y mo
                   \<and> h < 24 \<and> mi < 60 \<and> sec < 60
                then Some (int ((days_before_year y + days_before_month y mo + (d - 1)) * 86400
                                + h * 3600 + mi * 60 + sec) * 1000000)
                else None
            | _ \<Rightarrow> None)
      else None)"

section \<open>News ingestor (app/news\_feeder)\<close>

subsection \<open>extract\_tags (parser.py)\<close>

text \<open>
  Message text is a \<open>string\<close> of ASCII characters: \<^verbatim>\<open>\w\<close> is a letter, a digit or the
  underscore, and \<^verbatim>\<open>lower()\<close> maps \<^verbatim>\<open>A-Z\<close> to \<^verbatim>\<open>a-z\<close>. The classification of
  characters beyond ASCII by the regular-expression engine is not modelled.
\<close>

definition word_char :: "char \<Rightarrow> bool" where
  "word_char c =
     (let n = (of_char c :: nat)
      in (48 \<le> n \<and> n \<le> 57) \<or> (65 \<le> n \<and> n \<le> 90) \<or> (97 \<le> n \<and> n \<le> 122) \<or> n = 95)"

definition lower_char :: "char \<Rightarrow> char" where
  "lower_char c =
     (let n = (of_char c :: nat) in if 65 \<le> n \<and> n \<le> 90 then char_of (n + 32) else c)"

definition lower :: "string \<Rightarrow> string" where
  "lower s = map lower_char s"

text \<open>
  \<^verbatim>\<open>re.findall(r"#(\w+)", text)\<close>: the scan goes from left to right; at a \<^verbatim>\<open>#\<close> followed
  by at least one word character the longest run of word characters is a match, and the
  scan goes on behind it.
\<close>

function findall_tags :: "string \<Rightarrow> string list" where
  "findall_tags [] = []"
| "findall_tags (c # cs) =
     (if c = CHR ''#'' \<and> takeWhile word_char cs \<noteq> []
      then takeWhile word_char cs # findall_tags (dropWhile word_char cs)
      else findall_tags cs)"
  by pat_completeness auto
termination
  by (relation "measure length") (auto simp: less_Suc_eq_le length_dropWhile_le)

text \<open>
  \<^verbatim>\<open>list(set(tag.lower() for tag in tags))\<close>: the order of the list is the iteration order
  of a Python set, which the language leaves open; the model keeps the order of first
  occurrence, and the results below speak of the elements only.
\<close>

definition extract_tags :: "string \<Rightarrow> string list" where
  "extract_tags text_arg =
     (if text_arg = [] then [] else remdups (map lower (findall_tags text_arg)))"

subsection \<open>Data (models.py)\<close>

text \<open>
  A \<^verbatim>\<open>datetime\<close> with its \<^verbatim>\<open>tzinfo\<close>: \<open>None\<close> for a naive value, otherwise the offset from
  UTC; \<^verbatim>\<open>timezone.utc\<close> is offset 0.
\<close>

record pydatetime =
  dt_value :: datetime
  tzinfo :: "int option"

definition ensure_utc :: "pydatetime \<Rightarrow> pydatetime" where
  "ensure_utc d = (if tzinfo d = None then d\<lparr>tzinfo := Some 0\<rparr> else d)"

record news =
  n_id :: nat
  n_msg_id :: int
  n_channel :: string
  n_date :: pydatetime
  n_tags :: "string list"
  n_text :: string

text \<open>
  The relational store: the table \<^verbatim>\<open>news\<close> with its sequence for \<^verbatim>\<open>id\<close>, and the table
  \<^verbatim>\<open>polling_state\<close>, whose primary key is the channel.
\<close>

record database =
  news_table :: "news list"
  news_id_seq :: nat
  polling_state :: "string \<rightharpoonup> pydatetime"

subsection \<open>Database (database.py)\<close>

text \<open>
  Every statement sent to the store can fail: the argument \<open>fault\<close> of an operation is
  \<open>Some e\<close> when the store raises \<open>e\<close> on it and \<open>None\<close> when it answers.
\<close>

definition message_exists ::
  "exn option \<Rightarrow> int \<Rightarrow> string \<Rightarrow> database \<Rightarrow> (exn + bool) \<times> database" where
  "message_exists fault msg_id channel db =
     (case fault of
        Some e \<Rightarrow> (Inl e, db)
      | None \<Rightarrow>
          (Inr (\<exists>r \<in> set (news_table db). n_msg_id r = msg_id \<and> n_channel r = channel), db))"

text \<open>
  \<^verbatim>\<open>session.add(news); await session.commit()\<close>: the constraint \<^verbatim>\<open>uq_news_msg_channel\<close>
  of the table rejects a second row with the same (msg\_id, channel).
\<close>

definition commit_news ::
  "exn option \<Rightarrow> int \<Rightarrow> string \<Rightarrow> pydatetime \<Rightarrow> string list \<Rightarrow> string \<Rightarrow> database
     \<Rightarrow> (exn + bool) \<times> database" where
  "commit_news fault msg_id channel date_arg tags text_arg db =
     (case fault of
        Some e \<Rightarrow> (Inl e, db)
      | None \<Rightarrow>
          if \<exists>r \<in> set (news_table db). n_msg_id r = msg_id \<and> n_channel r = channel
          then (Inl IntegrityError, db)
          else (Inr True,
                db\<lparr>news_table := news_table db @
                       [\<lparr>n_id = Suc (news_id_seq db), n_msg_id = msg_id, n_channel = channel,
                         n_date = date_arg, n_tags = tags, n_text = text_arg\<rparr>],
                    news_id_seq := Suc (news_id_seq db)\<rparr>))"

definition save_news ::
  "exn option \<Rightarrow> exn option \<Rightarrow> int \<Rightarrow> string \<Rightarrow> pydatetime \<Rightarrow> string list \<Rightarrow> string \<Rightarrow> database
     \<Rightarrow> (exn + bool) \<times> database" where
  "save_news exists_fault commit_fault msg_id channel date_arg tags text_arg db =
     (case message_exists exists_fault msg_id channel db of
        (Inl e, db1) \<Rightarrow> (Inl e, db1)
      | (Inr found, db1) \<Rightarrow>
          if found then (Inr False, db1)
          else try_except
                 (commit_news commit_fault msg_id channel (ensure_utc date_arg) tags text_arg db1)
                 (\<lambda>e s. if e = IntegrityError then Some (Inr False, s) else None))"

definition update_poll_state ::
  "exn option \<Rightarrow> string \<Rightarrow> pydatetime \<Rightarrow> database \<Rightarrow> (exn + unit) \<times> database" where
  "update_poll_state fault channel last_poll_time db =
     (case fault of
        Some e \<Rightarrow> (Inl e, db)
      | None \<Rightarrow>
          (case polling_state db channel of
             Some row \<Rightarrow>
               (Inr (), db\<lparr>polling_state := (polling_state db)(channel \<mapsto> ensure_utc last_poll_time)\<rparr>)
           | None \<Rightarrow>
               (Inr (), db\<lparr>polling_state := (polling_state db)(channel \<mapsto> ensure_utc last_poll_time)\<rparr>)))"

subsection \<open>NewsFeeder.poll\_channel (main.py)\<close>

text \<open>A message of the chat client: the code reads \<^verbatim>\<open>id\<close>, \<^verbatim>\<open>text\<close> and \<^verbatim>\<open>date\<close>.\<close>

record message =
  m_id :: int
  m_text :: "string option"
  m_date :: pydatetime

text \<open>
  What the world outside does during one poll of a channel: the answers of the chat client
  to \<^verbatim>\<open>get_entity\<close> and \<^verbatim>\<open>get_messages\<close>, the clock, and for the \<open>i\<close>-th fetched message the
  faults of the store on the two statements of its \<^verbatim>\<open>save_news\<close>, and the fault of the
  store on \<^verbatim>\<open>update_poll_state\<close>.
\<close>

record poll_env =
  get_entity :: "exn + unit"
  get_messages :: "exn + message list"
  save_faults :: "nat \<Rightarrow> exn option \<times> exn option"
  update_fault :: "exn option"
  utcnow :: datetime

text \<open>The loop of lines 45 to 66, with the two counters.\<close>

fun poll_messages ::
  "poll_env \<Rightarrow> string \<Rightarrow> nat \<Rightarrow> message list \<Rightarrow> nat \<times> nat \<Rightarrow> database
     \<Rightarrow> (exn + nat \<times> nat) \<times> database" where
  "poll_messages env channel_name i [] counts db = (Inr counts, db)"
| "poll_messages env channel_name i (msg # messages) counts db =
     (case m_text msg of
        None \<Rightarrow> poll_messages env channel_name (Suc i) messages counts db
      | Some text_arg \<Rightarrow>
          if text_arg = [] then poll_messages env channel_name (Suc i) messages counts db
          else (case save_news (fst (save_faults env i)) (snd (save_faults env i))
                       (m_id msg) channel_name (ensure_utc (m_date msg))
                       (extract_tags text_arg) text_arg db of
                  (Inl e, db1) \<Rightarrow> (Inl e, db1)
                | (Inr saved, db1) \<Rightarrow>
                    poll_messages env channel_name (Suc i) messages
                      (if saved then (Suc (fst counts), snd counts)
                       else (fst counts, Suc (snd counts))) db1))"

text \<open>
  The body of the outer \<^verbatim>\<open>try\<close>. The inner \<^verbatim>\<open>try\<close> around \<^verbatim>\<open>get_entity\<close> returns from the
  function on \<^verbatim>\<open>ValueError\<close> and \<^verbatim>\<open>ChannelPrivateError\<close> and lets every other exception
  through to the outer handlers.
\<close>

definition poll_channel_body :: "poll_env \<Rightarrow> string \<Rightarrow> database \<Rightarrow> (exn + unit) \<times> database" where
  "poll_channel_body env channel_name db =
     (case get_entity env of
        Inl e \<Rightarrow>
          if e = ValueError \<or> e = ChannelPrivateError then (Inr (), db) else (Inl e, db)
      | Inr channel \<Rightarrow>
          (case get_messages env of
             Inl e \<Rightarrow> (Inl e, db)
           | Inr messages \<Rightarrow>
               (case poll_messages env channel_name 0 messages (0, 0) db of
                  (Inl e, db1) \<Rightarrow> (Inl e, db1)
                | (Inr counts, db1) \<Rightarrow>
                    update_poll_state (update_fault env) channel_name
                      \<lparr>dt_value = utcnow env, tzinfo = Some 0\<rparr> db1)))"

text \<open>
  The handlers: \<^verbatim>\<open>except FloodWaitError\<close> sleeps for the announced time,
  \<^verbatim>\<open>except Exception\<close> logs; neither touches the store.
\<close>

definition poll_channel :: "poll_env \<Rightarrow> string \<Rightarrow> database \<Rightarrow> (exn + unit) \<times> database" where
  "poll_channel env channel_name db =
     try_except (poll_channel_body env channel_name db)
       (\<lambda>e s. (case e of
                  FloodWaitError seconds \<Rightarrow> Some (Inr (), s)
                | _ \<Rightarrow> except_Exception (\<lambda>e s. (Inr (), s)) e s))"

section \<open>Notions used in the statements\<close>

text \<open>
  The candles that \<open>fetch_ticker_data\<close> hands to the cycle, as a function of the client's
  answer: none when the client raises, the window of the answer otherwise (lemma
  \<open>fetch_ticker_data_eq\<close>).
\<close>

definition windowed :: "iso_parser \<Rightarrow> int \<Rightarrow> datetime \<Rightarrow> exn + candle list \<Rightarrow> candle list" where
  "windowed p fh now_arg resp =
     (case resp of Inl e \<Rightarrow> [] | Inr data \<Rightarrow> window_filter p (now_arg - timedelta_hours fh) data)"

text \<open>
  The snapshot that \<open>fetch_index_data\<close> hands to the cycle: none when the client raises
  (lemma \<open>fetch_index_data_eq\<close>).
\<close>

definition index_answer :: "exn + index_data option \<Rightarrow> index_data option" where
  "index_answer resp = (case resp of Inl e \<Rightarrow> None | Inr index_arg \<Rightarrow> index_arg)"

text \<open>
  The end-to-end scenario of the specification: the client answers with three candles that
  begin at 09:30, 09:31 and 09:32 of one day, the store accepts every statement, there is no
  index snapshot, and the monitor starts with empty sets and empty tables. 10:00 of that day
  is 63840909600000000 and 10:01 is 63840909660000000. \<open>scenario_after\<close> is the state
  after the first cycle (lemma \<open>scenario_first_cycle\<close>).
\<close>

definition scenario_candles :: "candle list" where
  "scenario_candles =
     [\<lparr>c_begin = Some ''2024-01-15 09:30:00'', c_end = Some ''2024-01-15 09:30:59'', c_fields = []\<rparr>,
      \<lparr>c_begin = Some ''2024-01-15 09:31:00'', c_end = Some ''2024-01-15 09:31:59'', c_fields = []\<rparr>,
      \<lparr>c_begin = Some ''2024-01-15 09:32:00'', c_end = Some ''2024-01-15 09:32:59'', c_fields = []\<rparr>]"

definition scenario_env :: "datetime \<Rightarrow> cycle_env" where
  "scenario_env now_arg =
     \<lparr>now = now_arg, ticker_resp = (\<lambda>t. Inr scenario_candles), candles_execute = (\<lambda>t. None),
      index_resp = Inr None, index_execute = None\<rparr>"

definition fresh_monitor :: monitor where
  "fresh_monitor =
     \<lparr>cache = Map.empty, index_cache = {}, db_connected = True,
      ticker_candles = [], index_values = [], db_calls = []\<rparr>"

definition scenario_after :: monitor where
  "scenario_after =
     \<lparr>cache = [''SBER'' \<mapsto> {''2024-01-15 09:32:00'', ''2024-01-15 09:31:00'', ''2024-01-15 09:30:00''}],
      index_cache = {}, db_connected = True,
      ticker_candles =
        [\<lparr>r_ticker = ''SBER'', r_begin = 63840907800000000, r_end = Some 63840907859000000,
          r_fields = [], r_trade_date = 738899\<rparr>,
         \<lparr>r_ticker = ''SBER'', r_begin = 63840907860000000, r_end = Some 63840907919000000,
          r_fields = [], r_trade_date = 738899\<rparr>,
         \<lparr>r_ticker = ''SBER'', r_begin = 63840907920000000, r_end = Some 63840907979000000,
          r_fields = [], r_trade_date = 738899\<rparr>],
      index_values = [],
      db_calls = [InsertCandles ''SBER'' scenario_candles
        [''SBER'' \<mapsto> {''2024-01-15 09:32:00'', ''2024-01-15 09:31:00'', ''2024-01-15 09:30:00''}]]\<rparr>"

text \<open>
  The store calls made during one cycle, and what optimistic marking says of a call: the
  identity keys of the items it persists are in the membership set at the moment of the
  call (the ticker's seen-set for candles, the index set for a snapshot).
\<close>

definition calls_of_cycle :: "iso_parser \<Rightarrow> int \<Rightarrow> cycle_env \<Rightarrow> monitor \<Rightarrow> db_call list" where
  "calls_of_cycle p fh env m =
     drop (length (db_calls m)) (db_calls (snd (monitor_cycle p fh env m)))"

fun keys_marked :: "db_call \<Rightarrow> bool" where
  "keys_marked (InsertCandles ticker new_data cache_then) =
     (\<forall>c \<in> set new_data.
        get_begin c \<in> (case cache_then ticker of None \<Rightarrow> {} | Some s \<Rightarrow> s))"
| "keys_marked (InsertIndex idx index_cache_then) = (get_systime idx \<in> index_cache_then)"

text \<open>An index snapshot with an update time, for the examples.\<close>

definition imoex_snapshot :: index_data where
  "imoex_snapshot =
     \<lparr>SYSTIME = Some ''2024-01-15 10:00:00'', SECID = Some ''IMOEX'', i_fields = []\<rparr>"

text \<open>
  The hashtags of a text in the words of the specification (\<^verbatim>\<open>#word\<close>): the non-empty
  runs of word characters that stand directly behind a \<^verbatim>\<open>#\<close> and end at the end of the
  text or before a character that is not a word character.
\<close>

definition hashtags :: "string \<Rightarrow> string set" where
  "hashtags text_arg =
     {w. \<exists>pre post. text_arg = pre @ CHR ''#'' # w @ post \<and> w \<noteq> [] \<and> (\<forall>c \<in> set w. word_char c)
           \<and> (case post of [] \<Rightarrow> True | c # rest \<Rightarrow> \<not> word_char c)}"

section \<open>Properties of the candle ingestor\<close>

subsection \<open>The seen-set and the loops over it\<close>

lemma seen_upd_same [simp]: "seen (m\<lparr>cache := (cache m)(t \<mapsto> S)\<rparr>) t = S"
  by (simp add: seen_def)

lemma seen_upd_other: "t' \<noteq> t \<Longrightarrow> seen (m\<lparr>cache := (cache m)(t \<mapsto> S)\<rparr>) t' = seen m t'"
  by (simp add: seen_def)

lemma new_candles_loop_state:
  "new_candles_loop t cs m = (new, m') \<Longrightarrow>
     m' = (if new = [] then m
           else m\<lparr>cache := (cache m)(t \<mapsto> seen m t \<union> get_begin ` set new)\<rparr>)"
proof (induction cs arbitrary: m new m')
  case Nil
  then show ?case by simp
next
  case (Cons c cs)
  show ?case
  proof (cases "get_begin c = [] \<or> get_begin c \<in> seen m t")
    case True
    with Cons.prems have "new_candles_loop t cs m = (new, m')"
      by (auto simp: Let_def split: if_splits)
    then show ?thesis by (rule Cons.IH)
  next
    case False
    let ?m1 = "m\<lparr>cache := (cache m)(t \<mapsto> insert (get_begin c) (seen m t))\<rparr>"
    obtain n1 m1' where r: "new_candles_loop t cs ?m1 = (n1, m1')"
      by (cases "new_candles_loop t cs ?m1") 
    with False Cons.prems have eq: "new = c # n1" "m' = m1'"
      by (auto simp: Let_def split: if_splits)
    from Cons.IH[OF r] show ?thesis
      unfolding eq by (auto simp: insert_commute Un_commute)
  qed
qed

lemma new_candles_loop_new:
  "new_candles_loop t cs m = (new, m') \<Longrightarrow>
     (\<forall>c \<in> set new. get_begin c \<noteq> [] \<and> get_begin c \<notin> seen m t) \<and> distinct (map get_begin new)
     \<and> set new \<subseteq> set cs"
proof (induction cs arbitrary: m new m')
  case Nil
  then show ?case by simp
next
  case (Cons c cs)
  show ?case
  proof (cases "get_begin c = [] \<or> get_begin c \<in> seen m t")
    case True
    with Cons.prems have "new_candles_loop t cs m = (new, m')"
      by (auto simp: Let_def split: if_splits)
    from Cons.IH[OF this] show ?thesis by auto
  next
    case False
    let ?m1 = "m\<lparr>cache := (cache m)(t \<mapsto> insert (get_begin c) (seen m t))\<rparr>"
    obtain n1 m1' where r: "new_candles_loop t cs ?m1 = (n1, m1')"
      by (cases "new_candles_loop t cs ?m1") 
    with False Cons.prems have eq: "new = c # n1" "m' = m1'"
      by (auto simp: Let_def split: if_splits)
    from Cons.IH[OF r] False show ?thesis
      unfolding eq by auto
  qed
qed

lemma new_candles_loop_covers:
  "new_candles_loop t cs m = (new, m') \<Longrightarrow> c \<in> set cs \<Longrightarrow> get_begin c \<noteq> [] \<Longrightarrow>
     get_begin c \<in> seen m t \<union> get_begin ` set new"
proof (induction cs arbitrary: m new m')
  case Nil
  then show ?case by simp
next
  case (Cons d cs)
  show ?case
  proof (cases "get_begin d = [] \<or> get_begin d \<in> seen m t")
    case True
    with Cons.prems have r: "new_candles_loop t cs m = (new, m')"
      by (auto simp: Let_def split: if_splits)
    show ?thesis
    proof (cases "c = d")
      case True
      with \<open>get_begin d = [] \<or> get_begin d \<in> seen m t\<close> Cons.prems show ?thesis by auto
    next
      case False
      with Cons.prems have "c \<in> set cs" by simp
      from Cons.IH[OF r this Cons.prems(3)] show ?thesis .
    qed
  next
    case False
    let ?m1 = "m\<lparr>cache := (cache m)(t \<mapsto> insert (get_begin d) (seen m t))\<rparr>"
    obtain n1 m1' where r: "new_candles_loop t cs ?m1 = (n1, m1')"
      by (cases "new_candles_loop t cs ?m1") 
    with False Cons.prems have eq: "new = d # n1" "m' = m1'"
      by (auto simp: Let_def split: if_splits)
    show ?thesis
    proof (cases "c = d")
      case True
      then show ?thesis unfolding eq by simp
    next
      case False
      with Cons.prems have "c \<in> set cs" by simp
      from Cons.IH[OF r this Cons.prems(3)] show ?thesis unfolding eq by auto
    qed
  qed
qed

lemma new_candles_loop_all_seen:
  "\<forall>c \<in> set cs. get_begin c \<noteq> [] \<longrightarrow> get_begin c \<in> seen m t \<Longrightarrow>
     new_candles_loop t cs m = ([], m)"
  by (induction cs) (auto simp: Let_def)

lemma seen_cache_cong: "cache m1 t = cache m2 t \<Longrightarrow> seen m1 t = seen m2 t"
  by (simp add: seen_def)

lemma seen_db_calls_update [simp]: "seen (m\<lparr>db_calls := x\<rparr>) t = seen m t"
  by (simp add: seen_def)

lemma seen_ticker_candles_update [simp]: "seen (m\<lparr>ticker_candles := x\<rparr>) t = seen m t"
  by (simp add: seen_def)

lemma discard_loop_state:
  "discard_loop t nd m =
     (if seen m t \<inter> get_begin ` set nd = {} then m
      else m\<lparr>cache := (cache m)(t \<mapsto> seen m t - get_begin ` set nd)\<rparr>)"
proof (induction nd arbitrary: m)
  case Nil
  then show ?case by simp
next
  case (Cons c nd)
  show ?case
  proof (cases "get_begin c \<in> seen m t")
    case True
    have "seen m t - {get_begin c} - get_begin ` set nd = seen m t - insert (get_begin c) (get_begin ` set nd)"
      by auto
    moreover have "seen m t \<inter> insert (get_begin c) (get_begin ` set nd) \<noteq> {}"
      using True by auto
    moreover have "(seen m t - {get_begin c}) \<inter> get_begin ` set nd = {} \<Longrightarrow>
       seen m t - {get_begin c} = seen m t - insert (get_begin c) (get_begin ` set nd)"
      by auto
    ultimately show ?thesis using True
      by (simp add: Cons.IH Let_def)
  next
    case False
    then show ?thesis by (simp add: Cons.IH Let_def)
  qed
qed

lemma discard_loop_seen: "seen (discard_loop t nd m) t = seen m t - get_begin ` set nd"
  by (auto simp: discard_loop_state)

lemma discard_loop_cache_other: "t' \<noteq> t \<Longrightarrow> cache (discard_loop t nd m) t' = cache m t'"
  by (simp add: discard_loop_state)

lemma discard_loop_frame:
  "index_cache (discard_loop t nd m) = index_cache m"
  "db_connected (discard_loop t nd m) = db_connected m"
  "ticker_candles (discard_loop t nd m) = ticker_candles m"
  "index_values (discard_loop t nd m) = index_values m"
  "db_calls (discard_loop t nd m) = db_calls m"
  by (simp_all add: discard_loop_state)

lemma discard_loop_no_key: "cache m t = None \<Longrightarrow> discard_loop t nd m = m"
  by (simp add: discard_loop_state seen_def)

text \<open>The batched insert reads the state through \<open>db_connected\<close> only and writes the table only.\<close>

lemma insert_batch_outcome_cong:
  "db_connected m1 = db_connected m2 \<Longrightarrow>
     fst (insert_ticker_candles_batch p ex t nd m1) = fst (insert_ticker_candles_batch p ex t nd m2)"
  by (simp add: insert_ticker_candles_batch_def split: sum.splits option.splits)

lemma insert_batch_fail_state:
  "fst (insert_ticker_candles_batch p ex t nd m) = Inl e \<Longrightarrow>
     snd (insert_ticker_candles_batch p ex t nd m) = m"
  by (simp add: insert_ticker_candles_batch_def split: sum.splits option.splits if_splits)

lemma insert_batch_frame:
  "cache (snd (insert_ticker_candles_batch p ex t nd m)) = cache m"
  "index_cache (snd (insert_ticker_candles_batch p ex t nd m)) = index_cache m"
  "db_connected (snd (insert_ticker_candles_batch p ex t nd m)) = db_connected m"
  "index_values (snd (insert_ticker_candles_batch p ex t nd m)) = index_values m"
  "db_calls (snd (insert_ticker_candles_batch p ex t nd m)) = db_calls m"
  by (simp_all add: insert_ticker_candles_batch_def split: sum.splits option.splits)

text \<open>\<open>save_ticker_data\<close> when the batch is given and the insert raises.\<close>

lemma save_ticker_data_fail:
  assumes "data \<noteq> []" and "new_data \<noteq> []"
    and "fst (insert_ticker_candles_batch p ex t new_data m) = Inl e"
  shows "save_ticker_data p ex t data (Some new_data) m =
           (Inr (), discard_loop t new_data
                      (m\<lparr>db_calls := db_calls m @ [InsertCandles t new_data (cache m)]\<rparr>))"
proof -
  let ?m1 = "m\<lparr>db_calls := db_calls m @ [InsertCandles t new_data (cache m)]\<rparr>"
  have "fst (insert_ticker_candles_batch p ex t new_data ?m1) = Inl e"
    using assms(3) insert_batch_outcome_cong[of ?m1 m p ex t new_data] by simp
  then have "insert_ticker_candles_batch p ex t new_data ?m1 = (Inl e, ?m1)"
    using insert_batch_fail_state[of p ex t new_data ?m1 e] by (simp add: prod_eq_iff)
  then show ?thesis
    using assms(1,2) by (simp add: save_ticker_data_def try_except_def except_Exception_def)
qed

lemma save_ticker_data_ok:
  assumes "data \<noteq> []" and "new_data \<noteq> []"
    and "fst (insert_ticker_candles_batch p ex t new_data m) = Inr ()"
  shows "save_ticker_data p ex t data (Some new_data) m =
           (Inr (), snd (insert_ticker_candles_batch p ex t new_data
                      (m\<lparr>db_calls := db_calls m @ [InsertCandles t new_data (cache m)]\<rparr>)))"
proof -
  let ?m1 = "m\<lparr>db_calls := db_calls m @ [InsertCandles t new_data (cache m)]\<rparr>"
  have "fst (insert_ticker_candles_batch p ex t new_data ?m1) = Inr ()"
    using assms(3) insert_batch_outcome_cong[of ?m1 m p ex t new_data] by simp
  then obtain m' where "insert_ticker_candles_batch p ex t new_data ?m1 = (Inr (), m')"
    by (cases "insert_ticker_candles_batch p ex t new_data ?m1") auto
  then show ?thesis
    using assms(1,2) by (simp add: save_ticker_data_def try_except_def)
qed


lemma filter_new_candles_loop: "filter_new_candles t cs m = new_candles_loop t cs (ensure_key t m)"
  by (simp add: filter_new_candles_def)

lemma seen_ensure_key [simp]: "seen (ensure_key t m) t' = seen m t'"
  by (auto simp: ensure_key_def seen_def)

lemma ensure_key_idem: "cache m t \<noteq> None \<Longrightarrow> ensure_key t m = m"
  by (auto simp: ensure_key_def)

lemma ensure_key_cache: "cache (ensure_key t m) = (cache m)(t \<mapsto> seen m t)"
  by (rule ext) (simp add: ensure_key_def seen_def split: option.splits)


lemma filter_new_candles_cache:
  assumes "filter_new_candles t cs m = (new, m')"
  shows "cache m' = (cache m)(t \<mapsto> seen m t \<union> get_begin ` set new)"
proof -
  have r: "new_candles_loop t cs (ensure_key t m) = (new, m')"
    using assms by (simp add: filter_new_candles_loop)
  show ?thesis
    using new_candles_loop_state[OF r]
    by (auto simp: ensure_key_cache split: if_splits)
qed

lemma filter_new_candles_frame:
  assumes "filter_new_candles t cs m = (new, m')"
  shows "index_cache m' = index_cache m" "db_connected m' = db_connected m"
    "ticker_candles m' = ticker_candles m" "index_values m' = index_values m"
    "db_calls m' = db_calls m"
proof -
  have r: "new_candles_loop t cs (ensure_key t m) = (new, m')"
    using assms by (simp add: filter_new_candles_loop)
  show "index_cache m' = index_cache m" "db_connected m' = db_connected m"
    "ticker_candles m' = ticker_candles m" "index_values m' = index_values m"
    "db_calls m' = db_calls m"
    using new_candles_loop_state[OF r]
    by (auto simp: ensure_key_def split: if_splits)
qed

lemma filter_new_candles_new:
  assumes "filter_new_candles t cs m = (new, m')"
  shows "\<forall>c \<in> set new. get_begin c \<noteq> [] \<and> get_begin c \<notin> seen m t"
    and "distinct (map get_begin new)"
    and "set new \<subseteq> set cs"
    and "seen m' t = seen m t \<union> get_begin ` set new"
proof -
  have r: "new_candles_loop t cs (ensure_key t m) = (new, m')"
    using assms by (simp add: filter_new_candles_loop)
  show "\<forall>c \<in> set new. get_begin c \<noteq> [] \<and> get_begin c \<notin> seen m t"
    and "distinct (map get_begin new)" and "set new \<subseteq> set cs"
    using new_candles_loop_new[OF r] by simp_all
  show "seen m' t = seen m t \<union> get_begin ` set new"
    using filter_new_candles_cache[OF assms] by (simp add: seen_def)
qed

lemma save_ticker_data_calls:
  assumes "data \<noteq> []" and "new_data \<noteq> []"
  shows "db_calls (snd (save_ticker_data p ex t data (Some new_data) m))
           = db_calls m @ [InsertCandles t new_data (cache m)]"
proof (cases "fst (insert_ticker_candles_batch p ex t new_data m)")
  case (Inl e)
  show ?thesis
    by (simp add: save_ticker_data_fail[OF assms Inl] discard_loop_frame)
next
  case (Inr u)
  then have "fst (insert_ticker_candles_batch p ex t new_data m) = Inr ()" by simp
  from save_ticker_data_ok[OF assms this] show ?thesis
    by (simp add: insert_batch_frame)
qed

subsection \<open>The window and the cycle of one ticker\<close>

lemma window_filter_set:
  "set (window_filter p th data) =
     {c \<in> set data. get_begin c \<noteq> [] \<and> (\<exists>dt. p (replace_space_T (get_begin c)) = Some dt \<and> th \<le> dt)}"
  by (induction data) (auto simp: Let_def split: option.splits)

lemma window_filter_mono:
  "th1 \<le> th2 \<Longrightarrow> set (window_filter p th2 data) \<subseteq> set (window_filter p th1 data)"
  by (auto simp: window_filter_set)

lemma fetch_ticker_data_eq:
  "fetch_ticker_data p fh now_arg resp m = (Inr (windowed p fh now_arg resp), m)"
  by (cases resp)
     (simp_all add: fetch_ticker_data_def windowed_def try_except_def except_Exception_def)

lemma save_ticker_data_returns: "fst (save_ticker_data p ex t data arg m) = Inr ()"
  by (auto simp: save_ticker_data_def try_except_def except_Exception_def
      split: prod.splits option.splits sum.splits)

lemma monitor_ticker_eq:
  "monitor_ticker p fh env t m =
     (if windowed p fh (now env) (ticker_resp env t) \<noteq> []
      then save_ticker_data p (candles_execute env t) t (windowed p fh (now env) (ticker_resp env t))
             (Some (fst (filter_new_candles t (windowed p fh (now env) (ticker_resp env t)) m)))
             (snd (filter_new_candles t (windowed p fh (now env) (ticker_resp env t)) m))
      else (Inr (), m))"
proof -
  have "try_except x (except_Exception (\<lambda>e s. (Inr (), s))) = x" if "fst x = Inr ()"
    for x :: "(exn + unit) \<times> monitor"
    using that by (cases x) (auto simp: try_except_def)
  then show ?thesis
    by (simp add: monitor_ticker_def fetch_ticker_data_eq save_ticker_data_returns
        split: prod.splits)
qed

lemma save_ticker_data_empty: "save_ticker_data p ex t data (Some []) m = (Inr (), m)"
  by (simp add: save_ticker_data_def)

lemma filter_new_candles_all_seen:
  assumes "\<forall>c \<in> set cs. get_begin c \<noteq> [] \<longrightarrow> get_begin c \<in> seen m t"
  shows "fst (filter_new_candles t cs m) = []"
    and "ticker_candles (snd (filter_new_candles t cs m)) = ticker_candles m"
proof -
  have "new_candles_loop t cs (ensure_key t m) = ([], ensure_key t m)"
    by (rule new_candles_loop_all_seen) (simp add: assms)
  then show "fst (filter_new_candles t cs m) = []"
    and "ticker_candles (snd (filter_new_candles t cs m)) = ticker_candles m"
    by (simp_all add: filter_new_candles_loop ensure_key_def)
qed

lemma filter_new_candles_covers:
  assumes "filter_new_candles t cs m = (new, m')" and "c \<in> set cs" and "get_begin c \<noteq> []"
  shows "get_begin c \<in> seen m' t"
proof -
  have r: "new_candles_loop t cs (ensure_key t m) = (new, m')"
    using assms(1) by (simp add: filter_new_candles_loop)
  have "get_begin c \<in> seen (ensure_key t m) t \<union> get_begin ` set new"
    by (rule new_candles_loop_covers[OF r assms(2,3)])
  then show ?thesis
    using filter_new_candles_new(4)[OF assms(1)] by simp
qed

text \<open>After a cycle whose insert did not raise, every candle of the window is in the seen-set.\<close>

lemma monitor_ticker_marks:
  assumes f: "filter_new_candles t (windowed p fh (now env) (ticker_resp env t)) m = (new_data, m1)"
    and ok: "new_data = [] \<or>
             fst (insert_ticker_candles_batch p (candles_execute env t) t new_data m1) = Inr ()"
    and c: "c \<in> set (windowed p fh (now env) (ticker_resp env t))" "get_begin c \<noteq> []"
  shows "get_begin c \<in> seen (snd (monitor_ticker p fh env t m)) t"
proof -
  let ?data = "windowed p fh (now env) (ticker_resp env t)"
  have ne: "?data \<noteq> []" using c(1) by auto
  have in1: "get_begin c \<in> seen m1 t"
    by (rule filter_new_candles_covers[OF f c])
  have mt: "monitor_ticker p fh env t m = save_ticker_data p (candles_execute env t) t ?data (Some new_data) m1"
    using ne f by (simp add: monitor_ticker_eq)
  show ?thesis
  proof (cases "new_data = []")
    case True
    then show ?thesis using in1 by (simp add: mt save_ticker_data_empty)
  next
    case False
    with ok have "fst (insert_ticker_candles_batch p (candles_execute env t) t new_data m1) = Inr ()"
      by simp
    from save_ticker_data_ok[OF ne False this] show ?thesis
      using in1 by (simp add: mt seen_def insert_batch_frame)
  qed
qed

lemma monitor_ticker_idempotent:
  assumes f: "filter_new_candles t (windowed p fh (now env) (ticker_resp env t)) m = (new_data, m1)"
    and ok: "new_data = [] \<or>
             fst (insert_ticker_candles_batch p (candles_execute env t) t new_data m1) = Inr ()"
    and same: "ticker_resp env2 t = ticker_resp env t"
    and later: "now env \<le> now env2"
  shows "ticker_candles (snd (monitor_ticker p fh env2 t (snd (monitor_ticker p fh env t m))))
         = ticker_candles (snd (monitor_ticker p fh env t m))"
proof -
  let ?ma = "snd (monitor_ticker p fh env t m)"
  let ?d2 = "windowed p fh (now env2) (ticker_resp env2 t)"
  have sub: "set ?d2 \<subseteq> set (windowed p fh (now env) (ticker_resp env t))"
  proof (cases "ticker_resp env t")
    case (Inl e)
    then show ?thesis by (simp add: windowed_def same)
  next
    case (Inr src)
    have "now env - timedelta_hours fh \<le> now env2 - timedelta_hours fh"
      using later by simp
    from window_filter_mono[OF this] show ?thesis
      by (simp add: windowed_def same Inr)
  qed
  have all: "\<forall>c \<in> set ?d2. get_begin c \<noteq> [] \<longrightarrow> get_begin c \<in> seen ?ma t"
    using sub monitor_ticker_marks[OF f ok] by blast
  show ?thesis
    by (simp add: monitor_ticker_eq[of p fh env2 t ?ma] filter_new_candles_all_seen[OF all]
        save_ticker_data_empty)
qed

subsection \<open>The whole cycle\<close>

lemma save_index_data_returns: "fst (save_index_data ex idx m) = Inr ()"
  by (auto simp: save_index_data_def insert_index_value_def try_except_def except_Exception_def
      Let_def split: option.splits prod.splits sum.splits)

lemma save_index_data_frame:
  "cache (snd (save_index_data ex idx m)) = cache m"
  "ticker_candles (snd (save_index_data ex idx m)) = ticker_candles m"
  "db_connected (snd (save_index_data ex idx m)) = db_connected m"
  by (auto simp: save_index_data_def insert_index_value_def try_except_def except_Exception_def
      Let_def split: option.splits prod.splits sum.splits)

lemma fetch_index_data_eq: "fetch_index_data resp m = (Inr (index_answer resp), m)"
  by (cases resp)
     (simp_all add: fetch_index_data_def index_answer_def try_except_def except_Exception_def)

lemma try_except_returns:
  "fst x = Inr v \<Longrightarrow> try_except x h = x"
  by (cases x) (auto simp: try_except_def)

lemma monitor_index_eq:
  "monitor_index env m = save_index_data (index_execute env) (index_answer (index_resp env)) m"
  by (simp add: monitor_index_def fetch_index_data_eq
      try_except_returns[OF save_index_data_returns])

lemma monitor_ticker_returns: "fst (monitor_ticker p fh env t m) = Inr ()"
  by (simp add: monitor_ticker_eq save_ticker_data_returns)

lemma monitor_tickers_returns: "fst (monitor_tickers p fh env ts m) = Inr ()"
proof (induction ts arbitrary: m)
  case Nil
  then show ?case by simp
next
  case (Cons t ts)
  obtain m1 where "monitor_ticker p fh env t m = (Inr (), m1)"
    using monitor_ticker_returns[of p fh env t m] by (cases "monitor_ticker p fh env t m") simp
  then show ?case by (simp add: Cons.IH)
qed

lemma monitor_cycle_eq:
  "monitor_cycle p fh env m = monitor_index env (snd (monitor_ticker p fh env ''SBER'' m))"
proof -
  obtain m1 where "monitor_ticker p fh env ''SBER'' m = (Inr (), m1)"
    using monitor_ticker_returns[of p fh env "''SBER''" m]
    by (cases "monitor_ticker p fh env ''SBER'' m") simp
  then show ?thesis
    by (simp add: monitor_cycle_def get_tickers_list_def)
qed

lemma monitor_cycle_returns: "fst (monitor_cycle p fh env m) = Inr ()"
  by (simp add: monitor_cycle_eq monitor_index_eq save_index_data_returns)

lemma monitor_ticker_all_seen:
  assumes "\<forall>c \<in> set (windowed p fh (now env) (ticker_resp env t)).
             get_begin c \<noteq> [] \<longrightarrow> get_begin c \<in> seen m t"
  shows "ticker_candles (snd (monitor_ticker p fh env t m)) = ticker_candles m"
  by (simp add: monitor_ticker_eq filter_new_candles_all_seen[OF assms] save_ticker_data_empty)

lemma monitor_index_frame:
  "seen (snd (monitor_index env m)) t = seen m t"
  "ticker_candles (snd (monitor_index env m)) = ticker_candles m"
  by (simp_all add: monitor_index_eq save_index_data_frame seen_def)

lemma windowed_later:
  assumes "now_a \<le> now_b"
  shows "set (windowed p fh now_b resp) \<subseteq> set (windowed p fh now_a resp)"
proof (cases resp)
  case (Inl e)
  then show ?thesis by (simp add: windowed_def)
next
  case (Inr src)
  have "now_a - timedelta_hours fh \<le> now_b - timedelta_hours fh"
    using assms by simp
  from window_filter_mono[OF this] show ?thesis
    by (simp add: windowed_def Inr)
qed


lemma cycle_twice:
  assumes fe: "fetch_ticker_data p fh (now env) (ticker_resp env t) m = (Inr data, m)"
    and fi: "filter_new_candles t data m = (new_data, m1)"
    and ok: "new_data = [] \<or>
             fst (insert_ticker_candles_batch p (candles_execute env t) t new_data m1) = Inr ()"
    and same: "ticker_resp env2 t = ticker_resp env t"
    and later: "now env \<le> now env2"
  shows "ticker_candles (snd (monitor_ticker p fh env2 t (snd (monitor_ticker p fh env t m))))
          = ticker_candles (snd (monitor_ticker p fh env t m))"
    and "t = ''SBER'' \<Longrightarrow>
         ticker_candles (snd (monitor_cycle p fh env2 (snd (monitor_cycle p fh env m))))
          = ticker_candles (snd (monitor_cycle p fh env m))"
proof -
  let ?w = "windowed p fh (now env) (ticker_resp env t)"
  let ?w2 = "windowed p fh (now env2) (ticker_resp env2 t)"
  let ?ma = "snd (monitor_ticker p fh env t m)"
  have d: "data = ?w"
    using fe by (simp add: fetch_ticker_data_eq)
  have f: "filter_new_candles t ?w m = (new_data, m1)"
    using fi d by simp
  have sub: "set ?w2 \<subseteq> set ?w"
    using same windowed_later[OF later] by simp
  have all: "\<forall>c \<in> set ?w2. get_begin c \<noteq> [] \<longrightarrow> get_begin c \<in> seen ?ma t"
    using sub monitor_ticker_marks[OF f ok] by blast
  show "ticker_candles (snd (monitor_ticker p fh env2 t ?ma)) = ticker_candles ?ma"
    by (rule monitor_ticker_all_seen[OF all])
  show "ticker_candles (snd (monitor_cycle p fh env2 (snd (monitor_cycle p fh env m))))
          = ticker_candles (snd (monitor_cycle p fh env m))"
    if "t = ''SBER''"
  proof -
    let ?mb = "snd (monitor_cycle p fh env m)"
    have "\<forall>c \<in> set ?w2. get_begin c \<noteq> [] \<longrightarrow> get_begin c \<in> seen ?mb t"
      using all that by (simp add: monitor_cycle_eq monitor_index_frame)
    from monitor_ticker_all_seen[OF this] show ?thesis
      using that by (simp add: monitor_cycle_eq[of _ _ env2] monitor_index_frame)
  qed
qed


subsection \<open>The store calls of a cycle\<close>

lemma monitor_ticker_calls:
  assumes "filter_new_candles t (windowed p fh (now env) (ticker_resp env t)) m = (new_data, m1)"
  shows "db_calls (snd (monitor_ticker p fh env t m))
           = db_calls m @ (if new_data \<noteq> [] then [InsertCandles t new_data (cache m1)] else [])"
proof -
  let ?w = "windowed p fh (now env) (ticker_resp env t)"
  have c: "db_calls m1 = db_calls m"
    using filter_new_candles_frame[OF assms] by simp
  show ?thesis
  proof (cases "?w = []")
    case True
    then have "new_data = []"
      using filter_new_candles_new(3)[OF assms] by simp
    with True show ?thesis by (simp add: monitor_ticker_eq)
  next
    case False
    show ?thesis
    proof (cases "new_data = []")
      case True
      with False assms c show ?thesis by (simp add: monitor_ticker_eq save_ticker_data_empty)
    next
      case n: False
      show ?thesis
        using False n assms c save_ticker_data_calls[OF False n, of p "candles_execute env t" t m1]
        by (simp add: monitor_ticker_eq)
    qed
  qed
qed

lemma save_ticker_data_frame:
  "index_cache (snd (save_ticker_data p ex t data (Some new_data) m)) = index_cache m"
  "db_connected (snd (save_ticker_data p ex t data (Some new_data) m)) = db_connected m"
proof -
  have "index_cache (snd (save_ticker_data p ex t data (Some new_data) m)) = index_cache m
        \<and> db_connected (snd (save_ticker_data p ex t data (Some new_data) m)) = db_connected m"
  proof (cases "data = [] \<or> new_data = []")
    case True
    then show ?thesis by (auto simp: save_ticker_data_def)
  next
    case False
    then have ne: "data \<noteq> []" "new_data \<noteq> []" by simp_all
    show ?thesis
    proof (cases "fst (insert_ticker_candles_batch p ex t new_data m)")
      case (Inl e)
      show ?thesis
        unfolding save_ticker_data_fail[OF ne Inl] by (simp add: discard_loop_frame)
    next
      case (Inr u)
      then have "fst (insert_ticker_candles_batch p ex t new_data m) = Inr ()"
        by simp
      from save_ticker_data_ok[OF ne this] show ?thesis
        by (simp add: insert_batch_frame)
    qed
  qed
  then show "index_cache (snd (save_ticker_data p ex t data (Some new_data) m)) = index_cache m"
    and "db_connected (snd (save_ticker_data p ex t data (Some new_data) m)) = db_connected m"
    by simp_all
qed

lemma monitor_ticker_frame:
  "index_cache (snd (monitor_ticker p fh env t m)) = index_cache m"
  "db_connected (snd (monitor_ticker p fh env t m)) = db_connected m"
proof -
  let ?w = "windowed p fh (now env) (ticker_resp env t)"
  obtain new_data m1 where f: "filter_new_candles t ?w m = (new_data, m1)"
    by (cases "filter_new_candles t ?w m")
  have fr: "index_cache m1 = index_cache m" "db_connected m1 = db_connected m"
    using filter_new_candles_frame[OF f] by simp_all
  have e: "monitor_ticker p fh env t m =
             (if ?w \<noteq> [] then save_ticker_data p (candles_execute env t) t ?w (Some new_data) m1
              else (Inr (), m))"
    unfolding monitor_ticker_eq f by simp
  show "index_cache (snd (monitor_ticker p fh env t m)) = index_cache m"
    and "db_connected (snd (monitor_ticker p fh env t m)) = db_connected m"
    unfolding e by (simp_all add: save_ticker_data_frame fr)
qed

text \<open>
  \<open>save_index_data\<close>, case by case: the call is made only for a key that is not in the index
  set, and the key enters the set only when the insert has returned.
\<close>

lemma save_index_data_skip:
  "get_systime idx = [] \<or> get_systime idx \<in> index_cache m \<Longrightarrow>
     save_index_data ex (Some idx) m = (Inr (), m)"
  by (auto simp: save_index_data_def Let_def)

lemma save_index_data_call:
  assumes "get_systime idx \<noteq> []" and "get_systime idx \<notin> index_cache m"
  shows "save_index_data ex (Some idx) m =
           (Inr (),
            if db_connected m \<and> ex = None
            then m\<lparr>db_calls := db_calls m @ [InsertIndex idx (index_cache m)],
                   index_values := index_values m @ [idx],
                   index_cache := insert (get_systime idx) (index_cache m)\<rparr>
            else m\<lparr>db_calls := db_calls m @ [InsertIndex idx (index_cache m)]\<rparr>)"
  using assms
  by (cases ex)
     (simp_all add: save_index_data_def insert_index_value_def try_except_def except_Exception_def
        Let_def)

lemma monitor_cycle_calls:
  assumes "filter_new_candles ''SBER'' (windowed p fh (now env) (ticker_resp env ''SBER'')) m
             = (new_data, m1)"
  shows "calls_of_cycle p fh env m =
           (if new_data \<noteq> [] then [InsertCandles ''SBER'' new_data (cache m1)] else [])
           @ (case index_answer (index_resp env) of
                None \<Rightarrow> []
              | Some idx \<Rightarrow>
                  if get_systime idx \<noteq> [] \<and> get_systime idx \<notin> index_cache m
                  then [InsertIndex idx (index_cache m)] else [])"
proof -
  let ?mt = "snd (monitor_ticker p fh env ''SBER'' m)"
  have a: "db_calls ?mt
             = db_calls m @ (if new_data \<noteq> [] then [InsertCandles ''SBER'' new_data (cache m1)] else [])"
    by (rule monitor_ticker_calls[OF assms])
  have i: "index_cache ?mt = index_cache m"
    by (rule monitor_ticker_frame)
  have "db_calls (snd (monitor_cycle p fh env m))
          = db_calls m @ (if new_data \<noteq> [] then [InsertCandles ''SBER'' new_data (cache m1)] else [])
           @ (case index_answer (index_resp env) of
                None \<Rightarrow> []
              | Some idx \<Rightarrow>
                  if get_systime idx \<noteq> [] \<and> get_systime idx \<notin> index_cache m
                  then [InsertIndex idx (index_cache m)] else [])"
  proof (cases "index_answer (index_resp env)")
    case None
    then show ?thesis
      using a by (simp add: monitor_cycle_eq monitor_index_eq save_index_data_def)
  next
    case (Some idx)
    show ?thesis
    proof (cases "get_systime idx = [] \<or> get_systime idx \<in> index_cache ?mt")
      case True
      from save_index_data_skip[OF this] show ?thesis
        using True a i Some by (auto simp: monitor_cycle_eq monitor_index_eq)
    next
      case False
      then have k: "get_systime idx \<noteq> []" "get_systime idx \<notin> index_cache ?mt" by simp_all
      from save_index_data_call[OF k] show ?thesis
        using k a i Some by (simp add: monitor_cycle_eq monitor_index_eq)
    qed
  qed
  then show ?thesis
    by (simp add: calls_of_cycle_def)
qed

lemma monitor_cycle_index_cache:
  assumes "index_answer (index_resp env) = Some idx"
    and "get_systime idx \<noteq> []" and "get_systime idx \<notin> index_cache m"
  shows "get_systime idx \<in> index_cache (snd (monitor_cycle p fh env m))
         \<longleftrightarrow> db_connected m \<and> index_execute env = None"
proof -
  let ?mt = "snd (monitor_ticker p fh env ''SBER'' m)"
  have k: "get_systime idx \<noteq> []" "get_systime idx \<notin> index_cache ?mt"
    using assms by (simp_all add: monitor_ticker_frame)
  from save_index_data_call[OF k] show ?thesis
    using assms by (simp add: monitor_cycle_eq monitor_index_eq monitor_ticker_frame)
qed

subsection \<open>The parser on the timestamps of the examples\<close>

lemma parse_0930:
  "fromisoformat_seconds (replace_space_T ''2024-01-15 09:30:00'') = Some 63840907800000000"
  by (simp add: replace_space_T_def fromisoformat_seconds_def digit_val_def days_in_month_def
      days_before_month_def days_before_year_def is_leap_def upt_rec)

lemma parse_0931:
  "fromisoformat_seconds (replace_space_T ''2024-01-15 09:31:00'') = Some 63840907860000000"
  by (simp add: replace_space_T_def fromisoformat_seconds_def digit_val_def days_in_month_def
      days_before_month_def days_before_year_def is_leap_def upt_rec)

lemma parse_0932:
  "fromisoformat_seconds (replace_space_T ''2024-01-15 09:32:00'') = Some 63840907920000000"
  by (simp add: replace_space_T_def fromisoformat_seconds_def digit_val_def days_in_month_def
      days_before_month_def days_before_year_def is_leap_def upt_rec)



lemma parse_0900:
  "fromisoformat_seconds (replace_space_T ''2024-01-15 09:00:00'') = Some 63840906000000000"
  by (simp add: replace_space_T_def fromisoformat_seconds_def digit_val_def days_in_month_def
      days_before_month_def days_before_year_def is_leap_def upt_rec)

lemma parse_085959:
  "fromisoformat_seconds (replace_space_T ''2024-01-15 08:59:59'') = Some 63840905999000000"
  by (simp add: replace_space_T_def fromisoformat_seconds_def digit_val_def days_in_month_def
      days_before_month_def days_before_year_def is_leap_def upt_rec)

lemma parse_093059:
  "fromisoformat_seconds (replace_space_T ''2024-01-15 09:30:59'') = Some 63840907859000000"
  by (simp add: replace_space_T_def fromisoformat_seconds_def digit_val_def days_in_month_def
      days_before_month_def days_before_year_def is_leap_def upt_rec)

lemma parse_093159:
  "fromisoformat_seconds (replace_space_T ''2024-01-15 09:31:59'') = Some 63840907919000000"
  by (simp add: replace_space_T_def fromisoformat_seconds_def digit_val_def days_in_month_def
      days_before_month_def days_before_year_def is_leap_def upt_rec)

lemma parse_093259:
  "fromisoformat_seconds (replace_space_T ''2024-01-15 09:32:59'') = Some 63840907979000000"
  by (simp add: replace_space_T_def fromisoformat_seconds_def digit_val_def days_in_month_def
      days_before_month_def days_before_year_def is_leap_def upt_rec)


subsection \<open>The two cycles of the end-to-end scenario, evaluated\<close>

lemma scenario_window:
  "windowed fromisoformat_seconds 1 63840909600000000 (Inr scenario_candles) = scenario_candles"
  by (simp add: windowed_def scenario_candles_def timedelta_hours_def get_begin_def
      parse_0930 parse_0931 parse_0932)

lemma scenario_window_later:
  "windowed fromisoformat_seconds 1 63840909660000000 (Inr scenario_candles) = scenario_candles"
  by (simp add: windowed_def scenario_candles_def timedelta_hours_def get_begin_def
      parse_0930 parse_0931 parse_0932)

lemma scenario_filter_first:
  "filter_new_candles ''SBER'' scenario_candles fresh_monitor
     = (scenario_candles,
        fresh_monitor\<lparr>cache := [''SBER'' \<mapsto> {''2024-01-15 09:32:00'', ''2024-01-15 09:31:00'',
                                           ''2024-01-15 09:30:00''}]\<rparr>)"
  by (simp add: filter_new_candles_def ensure_key_def scenario_candles_def fresh_monitor_def
      seen_def get_begin_def Let_def)

lemma scenario_build:
  "build_values fromisoformat_seconds ''SBER'' scenario_candles = Inr (ticker_candles scenario_after)"
  by (simp add: scenario_candles_def scenario_after_def date_of_def
      parse_0930 parse_0931 parse_0932 parse_093059 parse_093159 parse_093259)

lemma scenario_first_cycle:
  "monitor_cycle fromisoformat_seconds 1 (scenario_env 63840909600000000) fresh_monitor
     = (Inr (), scenario_after)"
proof -
  have ne: "scenario_candles \<noteq> []" by (simp add: scenario_candles_def)
  have "save_ticker_data fromisoformat_seconds None ''SBER'' scenario_candles (Some scenario_candles)
          (fresh_monitor\<lparr>cache := [''SBER'' \<mapsto> {''2024-01-15 09:32:00'', ''2024-01-15 09:31:00'',
                                           ''2024-01-15 09:30:00''}]\<rparr>)
        = (Inr (), scenario_after)"
    using ne
    by (simp add: save_ticker_data_def insert_ticker_candles_batch_def scenario_build
        try_except_def)
       (simp add: fresh_monitor_def scenario_after_def)
  then show ?thesis
    by (simp add: monitor_cycle_eq monitor_index_eq monitor_ticker_eq scenario_env_def
        scenario_window scenario_filter_first ne index_answer_def save_index_data_def)
qed

lemma scenario_second_cycle:
  "monitor_cycle fromisoformat_seconds 1 (scenario_env 63840909660000000) scenario_after
     = (Inr (), scenario_after)"
proof -
  have ne: "scenario_candles \<noteq> []" by (simp add: scenario_candles_def)
  have "filter_new_candles ''SBER'' scenario_candles scenario_after = ([], scenario_after)"
    by (simp add: filter_new_candles_def ensure_key_def scenario_candles_def scenario_after_def
      seen_def get_begin_def Let_def)
  then show ?thesis
    by (simp add: monitor_cycle_eq monitor_index_eq monitor_ticker_eq scenario_env_def
        scenario_window_later ne index_answer_def save_index_data_def save_ticker_data_empty)
qed

lemma scenario_seen_card: "card (seen scenario_after ''SBER'') = 3"
  by (simp add: scenario_after_def seen_def)

lemma scenario_two_cycles:
  "let m1 = snd (monitor_cycle fromisoformat_seconds 1 (scenario_env 63840909600000000)
                       fresh_monitor);
           m2 = snd (monitor_cycle fromisoformat_seconds 1 (scenario_env 63840909660000000) m1)
       in fst (fetch_ticker_data fromisoformat_seconds 1 63840909600000000 (Inr scenario_candles)
                 fresh_monitor) = Inr scenario_candles
          \<and> length scenario_candles = 3
          \<and> ticker_candles fresh_monitor = []
          \<and> length (ticker_candles m1) = 3
          \<and> ticker_candles m2 = ticker_candles m1
          \<and> card (seen m1 ''SBER'') = 3 \<and> card (seen m2 ''SBER'') = 3"
    unfolding Let_def scenario_first_cycle scenario_second_cycle snd_conv
    by (simp add: fetch_ticker_data_eq scenario_window scenario_seen_card)
       (simp add: scenario_candles_def fresh_monitor_def scenario_after_def)


lemma scenario_calls_with_index:
  "calls_of_cycle fromisoformat_seconds 1
     ((scenario_env 63840909600000000)\<lparr>index_resp := Inr (Some imoex_snapshot)\<rparr>) fresh_monitor
   = [InsertCandles ''SBER'' scenario_candles
        [''SBER'' \<mapsto> {''2024-01-15 09:32:00'', ''2024-01-15 09:31:00'', ''2024-01-15 09:30:00''}],
      InsertIndex imoex_snapshot {}]"
proof -
  let ?env = "(scenario_env 63840909600000000)\<lparr>index_resp := Inr (Some imoex_snapshot)\<rparr>"
  have w: "windowed fromisoformat_seconds 1 (now ?env) (ticker_resp ?env ''SBER'') = scenario_candles"
    by (simp add: scenario_env_def scenario_window)
  have f: "filter_new_candles ''SBER''
             (windowed fromisoformat_seconds 1 (now ?env) (ticker_resp ?env ''SBER'')) fresh_monitor
           = (scenario_candles,
              fresh_monitor\<lparr>cache := [''SBER'' \<mapsto> {''2024-01-15 09:32:00'', ''2024-01-15 09:31:00'',
                                           ''2024-01-15 09:30:00''}]\<rparr>)"
    unfolding w by (rule scenario_filter_first)
  have ne: "scenario_candles \<noteq> []" by (simp add: scenario_candles_def)
  show ?thesis
    unfolding monitor_cycle_calls[OF f]
    using ne
    by (simp add: scenario_env_def index_answer_def imoex_snapshot_def get_systime_def
        fresh_monitor_def)
qed

lemma index_only_calls:
  "calls_of_cycle fromisoformat_seconds 1
     \<lparr>now = 63840909600000000, ticker_resp = (\<lambda>t. Inr []), candles_execute = (\<lambda>t. None),
      index_resp = Inr (Some imoex_snapshot), index_execute = None\<rparr> fresh_monitor
   = [InsertIndex imoex_snapshot {}]"
proof -
  let ?env = "\<lparr>now = 63840909600000000, ticker_resp = (\<lambda>t. Inr []), candles_execute = (\<lambda>t. None),
      index_resp = Inr (Some imoex_snapshot), index_execute = None\<rparr>"
  have f: "filter_new_candles ''SBER''
             (windowed fromisoformat_seconds 1 (now ?env) (ticker_resp ?env ''SBER'')) fresh_monitor
           = ([], ensure_key ''SBER'' fresh_monitor)"
    by (simp add: windowed_def filter_new_candles_def)
  show ?thesis
    unfolding monitor_cycle_calls[OF f]
    by (simp add: index_answer_def imoex_snapshot_def get_systime_def fresh_monitor_def)
qed


subsection \<open>C9: what filter\_new\_candles returns and what it does to the seen-set\<close>

text \<open>
  Claim C9. For every ticker and every list of candles (repeated begin values and candles
  without a begin included), \<open>filter_new_candles\<close> returns only candles of the input whose
  begin is a non-empty string that was not in the ticker's seen-set before the call; the
  begins of the returned candles are pairwise distinct; and on return the ticker's seen-set
  is its previous value united with exactly the begins of the returned candles.
\<close>

theorem filter_new_candles_spec:
  assumes "filter_new_candles ticker candles m = (new_candles, m')"
  shows "(\<forall>c \<in> set new_candles.
            c \<in> set candles \<and> (\<exists>s. c_begin c = Some s \<and> s \<noteq> []) \<and> get_begin c \<notin> seen m ticker)
         \<and> distinct (map get_begin new_candles)
         \<and> seen m' ticker = seen m ticker \<union> get_begin ` set new_candles"
proof -
  have b: "get_begin c \<noteq> [] \<Longrightarrow> \<exists>s. c_begin c = Some s \<and> s \<noteq> []" for c
    by (cases "c_begin c") (auto simp: get_begin_def)
  show ?thesis
    using filter_new_candles_new[OF assms] b by auto
qed

theorem filter_new_candles_spec_witness:
  "filter_new_candles ''SBER''
     [\<lparr>c_begin = Some ''2024-01-15 09:30:00'', c_end = None, c_fields = []\<rparr>,
      \<lparr>c_begin = Some ''2024-01-15 09:30:00'', c_end = None, c_fields = [(''open'', ''1'')]\<rparr>,
      \<lparr>c_begin = None, c_end = None, c_fields = []\<rparr>,
      \<lparr>c_begin = Some ''2024-01-15 09:29:00'', c_end = None, c_fields = []\<rparr>,
      \<lparr>c_begin = Some ''2024-01-15 09:31:00'', c_end = None, c_fields = []\<rparr>]
     \<lparr>cache = [''SBER'' \<mapsto> {''2024-01-15 09:29:00''}], index_cache = {}, db_connected = True,
      ticker_candles = [], index_values = [], db_calls = []\<rparr>
   = ([\<lparr>c_begin = Some ''2024-01-15 09:30:00'', c_end = None, c_fields = []\<rparr>,
       \<lparr>c_begin = Some ''2024-01-15 09:31:00'', c_end = None, c_fields = []\<rparr>],
      \<lparr>cache = [''SBER'' \<mapsto> {''2024-01-15 09:31:00'', ''2024-01-15 09:30:00'', ''2024-01-15 09:29:00''}],
       index_cache = {}, db_connected = True,
       ticker_candles = [], index_values = [], db_calls = []\<rparr>)
   \<and> distinct (map get_begin
         [\<lparr>c_begin = Some ''2024-01-15 09:30:00'', c_end = None, c_fields = []\<rparr>,
          \<lparr>c_begin = Some ''2024-01-15 09:31:00'', c_end = None, c_fields = []\<rparr>])
   \<and> seen \<lparr>cache = [''SBER'' \<mapsto> {''2024-01-15 09:31:00'', ''2024-01-15 09:30:00'', ''2024-01-15 09:29:00''}],
            index_cache = {}, db_connected = True,
            ticker_candles = [], index_values = [], db_calls = []\<rparr> ''SBER''
       = {''2024-01-15 09:29:00''} \<union> {''2024-01-15 09:30:00'', ''2024-01-15 09:31:00''}"
proof -
  have e: "filter_new_candles ''SBER''
     [\<lparr>c_begin = Some ''2024-01-15 09:30:00'', c_end = None, c_fields = []\<rparr>,
      \<lparr>c_begin = Some ''2024-01-15 09:30:00'', c_end = None, c_fields = [(''open'', ''1'')]\<rparr>,
      \<lparr>c_begin = None, c_end = None, c_fields = []\<rparr>,
      \<lparr>c_begin = Some ''2024-01-15 09:29:00'', c_end = None, c_fields = []\<rparr>,
      \<lparr>c_begin = Some ''2024-01-15 09:31:00'', c_end = None, c_fields = []\<rparr>]
     \<lparr>cache = [''SBER'' \<mapsto> {''2024-01-15 09:29:00''}], index_cache = {}, db_connected = True,
      ticker_candles = [], index_values = [], db_calls = []\<rparr>
   = ([\<lparr>c_begin = Some ''2024-01-15 09:30:00'', c_end = None, c_fields = []\<rparr>,
       \<lparr>c_begin = Some ''2024-01-15 09:31:00'', c_end = None, c_fields = []\<rparr>],
      \<lparr>cache = [''SBER'' \<mapsto> {''2024-01-15 09:31:00'', ''2024-01-15 09:30:00'', ''2024-01-15 09:29:00''}],
       index_cache = {}, db_connected = True,
       ticker_candles = [], index_values = [], db_calls = []\<rparr>)"
    by (simp add: filter_new_candles_def ensure_key_def seen_def get_begin_def Let_def)
  show ?thesis
    using filter_new_candles_spec[OF e] e by (simp add: seen_def get_begin_def)
qed

subsection \<open>C10: the rollback touches the failed batch only\<close>

text \<open>
  Claim C10. When the batched insert raises in \<open>save_ticker_data\<close>, only the begin
  timestamps of the failed batch \<open>new_data\<close> leave the ticker's seen-set: the set afterwards
  is the set at the time of the insert minus the begins of the batch, so every other entry
  stays; the seen-sets of all other tickers are unchanged, and so are the index set and the
  table. \<open>m1\<close> is the state when the insert is called: \<open>m\<close> itself when the caller passes
  the batch, the state after \<open>filter_new_candles\<close> when it does not.
\<close>

theorem save_ticker_data_rollback_frame:
  assumes "data \<noteq> []"
    and "(case new_data_arg of None \<Rightarrow> filter_new_candles ticker data m
            | Some nd \<Rightarrow> (nd, m)) = (new_data, m1)"
    and "new_data \<noteq> []"
    and "fst (insert_ticker_candles_batch fromisoformat execute ticker new_data m1) = Inl e"
    and r: "save_ticker_data fromisoformat execute ticker data new_data_arg m = (res, m')"
  shows "seen m' ticker = seen m1 ticker - get_begin ` set new_data
         \<and> (\<forall>b. b \<notin> get_begin ` set new_data \<longrightarrow> (b \<in> seen m' ticker) = (b \<in> seen m1 ticker))
         \<and> (\<forall>t. t \<noteq> ticker \<longrightarrow> cache m' t = cache m1 t \<and> cache m' t = cache m t)
         \<and> index_cache m' = index_cache m
         \<and> ticker_candles m' = ticker_candles m"
proof -
  have eq: "save_ticker_data fromisoformat execute ticker data new_data_arg m
            = save_ticker_data fromisoformat execute ticker data (Some new_data) m1"
    using assms(1,2,3) by (simp add: save_ticker_data_def split: option.splits)
  have m': "m' = discard_loop ticker new_data
                  (m1\<lparr>db_calls := db_calls m1 @ [InsertCandles ticker new_data (cache m1)]\<rparr>)"
    using r save_ticker_data_fail[OF assms(1,3,4)] unfolding eq by simp
  have fr: "(\<forall>t. t \<noteq> ticker \<longrightarrow> cache m1 t = cache m t) \<and> index_cache m1 = index_cache m
            \<and> ticker_candles m1 = ticker_candles m"
  proof (cases new_data_arg)
    case None
    then have f: "filter_new_candles ticker data m = (new_data, m1)" using assms(2) by simp
    show ?thesis
      using filter_new_candles_cache[OF f] filter_new_candles_frame[OF f] by simp
  next
    case (Some nd)
    then show ?thesis using assms(2) by simp
  qed
  show ?thesis
    unfolding m' using fr
    by (simp add: discard_loop_seen discard_loop_cache_other discard_loop_frame)
qed

theorem save_ticker_data_rollback_frame_witness:
  "save_ticker_data fromisoformat_seconds (Some ConnectionError) ''SBER''
     [\<lparr>c_begin = Some ''2024-01-15 09:30:00'', c_end = None, c_fields = []\<rparr>,
      \<lparr>c_begin = Some ''2024-01-15 09:31:00'', c_end = None, c_fields = []\<rparr>]
     (Some [\<lparr>c_begin = Some ''2024-01-15 09:31:00'', c_end = None, c_fields = []\<rparr>])
     \<lparr>cache = [''GAZP'' \<mapsto> {''2024-01-15 09:31:00''},
               ''SBER'' \<mapsto> {''2024-01-15 09:31:00'', ''2024-01-15 09:30:00''}],
      index_cache = {''2024-01-15 09:31:05''}, db_connected = True,
      ticker_candles = [], index_values = [], db_calls = []\<rparr>
   = (Inr (),
      \<lparr>cache = [''GAZP'' \<mapsto> {''2024-01-15 09:31:00''}, ''SBER'' \<mapsto> {''2024-01-15 09:30:00''}],
       index_cache = {''2024-01-15 09:31:05''}, db_connected = True,
       ticker_candles = [], index_values = [],
       db_calls = [InsertCandles ''SBER''
          [\<lparr>c_begin = Some ''2024-01-15 09:31:00'', c_end = None, c_fields = []\<rparr>]
          [''GAZP'' \<mapsto> {''2024-01-15 09:31:00''},
           ''SBER'' \<mapsto> {''2024-01-15 09:31:00'', ''2024-01-15 09:30:00''}]]\<rparr>)
   \<and> seen \<lparr>cache = [''GAZP'' \<mapsto> {''2024-01-15 09:31:00''}, ''SBER'' \<mapsto> {''2024-01-15 09:30:00''}],
       index_cache = {''2024-01-15 09:31:05''}, db_connected = True,
       ticker_candles = [], index_values = [],
       db_calls = [InsertCandles ''SBER''
          [\<lparr>c_begin = Some ''2024-01-15 09:31:00'', c_end = None, c_fields = []\<rparr>]
          [''GAZP'' \<mapsto> {''2024-01-15 09:31:00''},
           ''SBER'' \<mapsto> {''2024-01-15 09:31:00'', ''2024-01-15 09:30:00''}]]\<rparr> ''SBER''
       = {''2024-01-15 09:31:00'', ''2024-01-15 09:30:00''} - {''2024-01-15 09:31:00''}"
proof -
  let ?c1 = "\<lparr>c_begin = Some ''2024-01-15 09:30:00'', c_end = None, c_fields = []\<rparr>"
  let ?c2 = "\<lparr>c_begin = Some ''2024-01-15 09:31:00'', c_end = None, c_fields = []\<rparr>"
  let ?m = "\<lparr>cache = [''GAZP'' \<mapsto> {''2024-01-15 09:31:00''},
               ''SBER'' \<mapsto> {''2024-01-15 09:31:00'', ''2024-01-15 09:30:00''}],
      index_cache = {''2024-01-15 09:31:05''}, db_connected = True,
      ticker_candles = [], index_values = [], db_calls = []\<rparr>"
  have d: "[?c1, ?c2] \<noteq> []" and n: "[?c2] \<noteq> []"
    by simp_all
  have s: "(case Some [?c2] of None \<Rightarrow> filter_new_candles ''SBER'' [?c1, ?c2] ?m
            | Some nd \<Rightarrow> (nd, ?m)) = ([?c2], ?m)"
    by simp
  have f: "fst (insert_ticker_candles_batch fromisoformat_seconds (Some ConnectionError) ''SBER'' [?c2] ?m)
           = Inl ConnectionError"
    by (simp add: insert_ticker_candles_batch_def parse_0931)
  have e: "save_ticker_data fromisoformat_seconds (Some ConnectionError) ''SBER'' [?c1, ?c2] (Some [?c2]) ?m
   = (Inr (),
      \<lparr>cache = [''GAZP'' \<mapsto> {''2024-01-15 09:31:00''}, ''SBER'' \<mapsto> {''2024-01-15 09:30:00''}],
       index_cache = {''2024-01-15 09:31:05''}, db_connected = True,
       ticker_candles = [], index_values = [],
       db_calls = [InsertCandles ''SBER'' [?c2]
          [''GAZP'' \<mapsto> {''2024-01-15 09:31:00''},
           ''SBER'' \<mapsto> {''2024-01-15 09:31:00'', ''2024-01-15 09:30:00''}]]\<rparr>)"
    by (simp add: save_ticker_data_def insert_ticker_candles_batch_def parse_0931 try_except_def
        except_Exception_def) (simp add: seen_def get_begin_def Let_def)
  have "seen \<lparr>cache = [''GAZP'' \<mapsto> {''2024-01-15 09:31:00''}, ''SBER'' \<mapsto> {''2024-01-15 09:30:00''}],
       index_cache = {''2024-01-15 09:31:05''}, db_connected = True,
       ticker_candles = [], index_values = [],
       db_calls = [InsertCandles ''SBER'' [?c2]
          [''GAZP'' \<mapsto> {''2024-01-15 09:31:00''},
           ''SBER'' \<mapsto> {''2024-01-15 09:31:00'', ''2024-01-15 09:30:00''}]]\<rparr> ''SBER''
        = seen ?m ''SBER'' - get_begin ` set [?c2]"
    using save_ticker_data_rollback_frame[where new_data_arg = "Some [?c2]" and m = ?m
        and e = ConnectionError, OF d s n f e] by (rule conjunct1)
  then show ?thesis
    using e by (simp add: seen_def get_begin_def)
qed

subsection \<open>C2: a failed batch leaves the seen-set and is selected again\<close>



subsection \<open>C4: the window of fetch\_ticker\_data\<close>

text \<open>
  Claim C4. For every candle of the client's answer whose begin parses, \<open>fetch_ticker_data\<close>
  keeps the candle if and only if its begin is not before the clock reading minus
  \<open>filter_hours\<close> hours. A candle whose begin is exactly \<open>filter_hours\<close> hours before the
  clock reading is kept; one whose begin is one microsecond older is dropped. Times are in
  microseconds, so an hour is 3600000000.
\<close>

theorem window_boundary:
  assumes "c \<in> set data"
    and "c_begin c = Some begin_str" and "begin_str \<noteq> []"
    and "fromisoformat (replace_space_T begin_str) = Some begin_dt"
  shows "\<exists>filtered_data.
           fetch_ticker_data fromisoformat filter_hours now_arg (Inr data) m = (Inr filtered_data, m)
           \<and> (c \<in> set filtered_data \<longleftrightarrow> begin_dt \<ge> now_arg - filter_hours * 3600000000)
           \<and> (begin_dt = now_arg - filter_hours * 3600000000 \<longrightarrow> c \<in> set filtered_data)
           \<and> (begin_dt = now_arg - filter_hours * 3600000000 - 1 \<longrightarrow> c \<notin> set filtered_data)"
proof -
  have g: "get_begin c = begin_str"
    using assms(2) by (simp add: get_begin_def)
  have "c \<in> set (windowed fromisoformat filter_hours now_arg (Inr data))
        \<longleftrightarrow> begin_dt \<ge> now_arg - filter_hours * 3600000000"
    using assms by (simp add: windowed_def window_filter_set g timedelta_hours_def)
  then show ?thesis
    by (auto simp: fetch_ticker_data_eq)
qed

theorem window_boundary_witness:
  "fetch_ticker_data fromisoformat_seconds 1 63840909600000000
     (Inr [\<lparr>c_begin = Some ''2024-01-15 08:59:59'', c_end = None, c_fields = []\<rparr>,
           \<lparr>c_begin = Some ''2024-01-15 09:00:00'', c_end = None, c_fields = []\<rparr>])
     \<lparr>cache = Map.empty, index_cache = {}, db_connected = True,
      ticker_candles = [], index_values = [], db_calls = []\<rparr>
   = (Inr [\<lparr>c_begin = Some ''2024-01-15 09:00:00'', c_end = None, c_fields = []\<rparr>],
      \<lparr>cache = Map.empty, index_cache = {}, db_connected = True,
       ticker_candles = [], index_values = [], db_calls = []\<rparr>)
   \<and> fromisoformat_seconds (replace_space_T ''2024-01-15 09:00:00'')
       = Some (63840909600000000 - 1 * 3600000000)"
proof -
  let ?old = "\<lparr>c_begin = Some ''2024-01-15 08:59:59'', c_end = None, c_fields = []\<rparr>"
  let ?c = "\<lparr>c_begin = Some ''2024-01-15 09:00:00'', c_end = None, c_fields = []\<rparr>"
  let ?m = "\<lparr>cache = Map.empty, index_cache = {}, db_connected = True,
      ticker_candles = [], index_values = [], db_calls = []\<rparr>"
  have p: "fromisoformat_seconds (replace_space_T ''2024-01-15 09:00:00'') = Some 63840906000000000"
    by (rule parse_0900)
  have i: "?c \<in> set [?old, ?c]" and b: "c_begin ?c = Some ''2024-01-15 09:00:00''"
    and n: "''2024-01-15 09:00:00'' \<noteq> []"
    by simp_all
  obtain fd where fd: "fetch_ticker_data fromisoformat_seconds 1 63840909600000000 (Inr [?old, ?c]) ?m
                        = (Inr fd, ?m)"
    and incl: "63840906000000000 = (63840909600000000::int) - 1 * 3600000000 \<longrightarrow> ?c \<in> set fd"
    using window_boundary[where fromisoformat = fromisoformat_seconds and filter_hours = 1
        and now_arg = 63840909600000000 and m = ?m, OF i b n p] by blast
  have e: "fetch_ticker_data fromisoformat_seconds 1 63840909600000000 (Inr [?old, ?c]) ?m
           = (Inr [?c], ?m)"
    by (simp add: fetch_ticker_data_eq windowed_def timedelta_hours_def get_begin_def
        parse_0900 parse_085959)
  have "?c \<in> set fd" using incl by simp
  then show ?thesis using e p by simp
qed

subsection \<open>C1: a second cycle on the same answer stores nothing\<close>

text \<open>
  Claim C1. For every ticker and every answer of the client: when a cycle has filtered the
  answer with \<open>filter_new_candles\<close> and its batched insert did not raise, a second cycle
  that gets the identical answer (at the same or a later clock reading) stores no further
  row. This holds for the part of the cycle that handles one ticker, and for the whole
  \<open>monitor_cycle\<close>, whose only ticker is SBER. In the scenario with candles at 09:30, 09:31
  and 09:32, one hour of window and the clock at 10:00, all three candles pass the window,
  the first cycle stores 3 rows, the second cycle (one minute later) stores none, and the
  seen-set of the ticker has 3 elements.
\<close>

theorem candle_cycle_idempotent:
  "(\<forall>fromisoformat filter_hours env next_env ticker m data new_data m_sel.
      fetch_ticker_data fromisoformat filter_hours (now env) (ticker_resp env ticker) m = (Inr data, m)
      \<and> filter_new_candles ticker data m = (new_data, m_sel)
      \<and> (new_data = [] \<or>
           fst (insert_ticker_candles_batch fromisoformat (candles_execute env ticker) ticker
                  new_data m_sel) = Inr ())
      \<and> ticker_resp next_env ticker = ticker_resp env ticker \<and> now env \<le> now next_env
      \<longrightarrow>
        ticker_candles (snd (monitor_ticker fromisoformat filter_hours next_env ticker
                               (snd (monitor_ticker fromisoformat filter_hours env ticker m))))
          = ticker_candles (snd (monitor_ticker fromisoformat filter_hours env ticker m))
        \<and> (ticker = ''SBER'' \<longrightarrow>
             ticker_candles (snd (monitor_cycle fromisoformat filter_hours next_env
                                    (snd (monitor_cycle fromisoformat filter_hours env m))))
               = ticker_candles (snd (monitor_cycle fromisoformat filter_hours env m))))
   \<and> (let m1 = snd (monitor_cycle fromisoformat_seconds 1 (scenario_env 63840909600000000)
                       fresh_monitor);
           m2 = snd (monitor_cycle fromisoformat_seconds 1 (scenario_env 63840909660000000) m1)
       in fst (fetch_ticker_data fromisoformat_seconds 1 63840909600000000 (Inr scenario_candles)
                 fresh_monitor) = Inr scenario_candles
          \<and> length scenario_candles = 3
          \<and> ticker_candles fresh_monitor = []
          \<and> length (ticker_candles m1) = 3
          \<and> ticker_candles m2 = ticker_candles m1
          \<and> card (seen m1 ''SBER'') = 3 \<and> card (seen m2 ''SBER'') = 3)"
  using cycle_twice scenario_two_cycles by blast


theorem candle_cycle_idempotent_witness:
  "fetch_ticker_data fromisoformat_seconds 1 (now (scenario_env 63840909600000000))
     (ticker_resp (scenario_env 63840909600000000) ''SBER'') fresh_monitor
     = (Inr scenario_candles, fresh_monitor)
   \<and> filter_new_candles ''SBER'' scenario_candles fresh_monitor
       = (scenario_candles,
          fresh_monitor\<lparr>cache := [''SBER'' \<mapsto> {''2024-01-15 09:32:00'', ''2024-01-15 09:31:00'',
                                             ''2024-01-15 09:30:00''}]\<rparr>)
   \<and> fst (insert_ticker_candles_batch fromisoformat_seconds
             (candles_execute (scenario_env 63840909600000000) ''SBER'') ''SBER'' scenario_candles
             (fresh_monitor\<lparr>cache := [''SBER'' \<mapsto> {''2024-01-15 09:32:00'',
                ''2024-01-15 09:31:00'', ''2024-01-15 09:30:00''}]\<rparr>)) = Inr ()
   \<and> now (scenario_env 63840909600000000) \<le> now (scenario_env 63840909660000000)
   \<and> ticker_candles (snd (monitor_cycle fromisoformat_seconds 1 (scenario_env 63840909660000000)
         (snd (monitor_cycle fromisoformat_seconds 1 (scenario_env 63840909600000000)
                 fresh_monitor))))
       = ticker_candles (snd (monitor_cycle fromisoformat_seconds 1
           (scenario_env 63840909600000000) fresh_monitor))"
proof -
  let ?a = "scenario_env 63840909600000000"
  let ?b = "scenario_env 63840909660000000"
  let ?m1 = "fresh_monitor\<lparr>cache := [''SBER'' \<mapsto> {''2024-01-15 09:32:00'',
                ''2024-01-15 09:31:00'', ''2024-01-15 09:30:00''}]\<rparr>"
  have h1: "fetch_ticker_data fromisoformat_seconds 1 (now ?a) (ticker_resp ?a ''SBER'') fresh_monitor
            = (Inr scenario_candles, fresh_monitor)"
    by (simp add: fetch_ticker_data_eq scenario_env_def scenario_window)
  have h2: "filter_new_candles ''SBER'' scenario_candles fresh_monitor = (scenario_candles, ?m1)"
    by (rule scenario_filter_first)
  have h3: "fst (insert_ticker_candles_batch fromisoformat_seconds (candles_execute ?a ''SBER'')
                   ''SBER'' scenario_candles ?m1) = Inr ()"
    by (simp add: insert_ticker_candles_batch_def scenario_build scenario_env_def fresh_monitor_def)
  have h4: "ticker_resp ?b ''SBER'' = ticker_resp ?a ''SBER''" and h5: "now ?a \<le> now ?b"
    by (simp_all add: scenario_env_def)
  have "ticker_candles (snd (monitor_ticker fromisoformat_seconds 1 ?b ''SBER''
                               (snd (monitor_ticker fromisoformat_seconds 1 ?a ''SBER'' fresh_monitor))))
          = ticker_candles (snd (monitor_ticker fromisoformat_seconds 1 ?a ''SBER'' fresh_monitor))
        \<and> (''SBER'' = ''SBER'' \<longrightarrow>
             ticker_candles (snd (monitor_cycle fromisoformat_seconds 1 ?b
                                    (snd (monitor_cycle fromisoformat_seconds 1 ?a fresh_monitor))))
               = ticker_candles (snd (monitor_cycle fromisoformat_seconds 1 ?a fresh_monitor)))"
    using candle_cycle_idempotent[THEN conjunct1, rule_format,
        where fromisoformat = fromisoformat_seconds and filter_hours = 1 and env = ?a
          and ticker = "''SBER''" and m = fresh_monitor and data = scenario_candles
          and new_data = scenario_candles and next_env = ?b]
      h1 h2 h3 h4 h5 by blast
  then show ?thesis
    using h1 h2 h3 h5 by blast
qed

subsection \<open>C5: when the identity keys enter the membership sets\<close>

text \<open>
  The claim that both instantiations mark optimistically fails for the index snapshot: in a
  cycle that fetches no candle and one snapshot, with an empty index set, the only store
  call is the insert of the snapshot, and the snapshot's key is not in the index set when
  the call is made.
\<close>

theorem index_marked_after_insert_counterexample:
  "calls_of_cycle fromisoformat_seconds 1
     \<lparr>now = 63840909600000000, ticker_resp = (\<lambda>t. Inr []), candles_execute = (\<lambda>t. None),
      index_resp = Inr (Some imoex_snapshot), index_execute = None\<rparr> fresh_monitor
   = [InsertIndex imoex_snapshot {}]
   \<and> \<not> keys_marked (InsertIndex imoex_snapshot {})"
  by (simp add: index_only_calls)

text \<open>
  Claim C5, amended. For every cycle and every store call made in it: a call that inserts
  candles is made with the begin of every candle of the batch already in the ticker's
  seen-set (optimistic marking); a call that inserts an index snapshot is made with the
  snapshot's key not in the index set, and after the cycle the key is in the index set
  exactly when the insert returned, that is when the store is connected and accepts the row
  (marking after success).
\<close>

theorem marking_order:
  assumes "call \<in> set (calls_of_cycle fromisoformat filter_hours env m)"
  shows "case call of
           InsertCandles ticker new_data cache_then \<Rightarrow> keys_marked call
         | InsertIndex idx index_cache_then \<Rightarrow>
             \<not> keys_marked call
             \<and> (get_systime idx \<in> index_cache (snd (monitor_cycle fromisoformat filter_hours env m))
                  \<longleftrightarrow> db_connected m \<and> index_execute env = None)"
proof -
  let ?w = "windowed fromisoformat filter_hours (now env) (ticker_resp env ''SBER'')"
  obtain new_data m1 where f: "filter_new_candles ''SBER'' ?w m = (new_data, m1)"
    by (cases "filter_new_candles ''SBER'' ?w m")
  note c = monitor_cycle_calls[OF f]
  have mk: "keys_marked (InsertCandles ''SBER'' new_data (cache m1))"
    using filter_new_candles_new(4)[OF f] by (simp add: seen_def)
  consider (candles) "call = InsertCandles ''SBER'' new_data (cache m1)"
    | (index) idx where "index_answer (index_resp env) = Some idx" "get_systime idx \<noteq> []"
        "get_systime idx \<notin> index_cache m" "call = InsertIndex idx (index_cache m)"
    using assms unfolding c
    by (cases "index_answer (index_resp env)") (auto split: if_splits)
  then show ?thesis
  proof cases
    case candles
    then show ?thesis using mk by simp
  next
    case index
    then show ?thesis
      using monitor_cycle_index_cache[OF index(1,2,3), of fromisoformat filter_hours] by simp
  qed
qed

theorem marking_order_witness:
  "InsertCandles ''SBER'' scenario_candles
     [''SBER'' \<mapsto> {''2024-01-15 09:32:00'', ''2024-01-15 09:31:00'', ''2024-01-15 09:30:00''}]
     \<in> set (calls_of_cycle fromisoformat_seconds 1
          ((scenario_env 63840909600000000)\<lparr>index_resp := Inr (Some imoex_snapshot)\<rparr>) fresh_monitor)
   \<and> keys_marked (InsertCandles ''SBER'' scenario_candles
        [''SBER'' \<mapsto> {''2024-01-15 09:32:00'', ''2024-01-15 09:31:00'', ''2024-01-15 09:30:00''}])
   \<and> InsertIndex imoex_snapshot {}
     \<in> set (calls_of_cycle fromisoformat_seconds 1
          ((scenario_env 63840909600000000)\<lparr>index_resp := Inr (Some imoex_snapshot)\<rparr>) fresh_monitor)
   \<and> \<not> keys_marked (InsertIndex imoex_snapshot {})"
proof -
  let ?env = "(scenario_env 63840909600000000)\<lparr>index_resp := Inr (Some imoex_snapshot)\<rparr>"
  let ?c = "InsertCandles ''SBER'' scenario_candles
     [''SBER'' \<mapsto> {''2024-01-15 09:32:00'', ''2024-01-15 09:31:00'', ''2024-01-15 09:30:00''}]"
  have a: "?c \<in> set (calls_of_cycle fromisoformat_seconds 1 ?env fresh_monitor)"
    and b: "InsertIndex imoex_snapshot {} \<in> set (calls_of_cycle fromisoformat_seconds 1 ?env fresh_monitor)"
    by (simp_all add: scenario_calls_with_index)
  have "keys_marked ?c"
    using marking_order[OF a] by simp
  moreover have "\<not> keys_marked (InsertIndex imoex_snapshot {})"
    using marking_order[OF b] by simp
  ultimately show ?thesis
    using a b by blast
qed

end
